theory Spec2Isabelle
  imports Complex_Main
begin

section \<open>Numbers\<close>

text \<open>
  The ratios handed to \<^verbatim>\<open>setTempo\<close>, \<^verbatim>\<open>setPitch\<close> and \<^verbatim>\<open>setFormantScale\<close> are C++
  \<^verbatim>\<open>double\<close>s, and JavaScript numbers on the TypeScript side. The code only compares
  them (\<^verbatim>\<open><= 0\<close>, \<^verbatim>\<open>!=\<close>, \<^verbatim>\<open>!== 1\<close>), tests their truthiness and forms \<^verbatim>\<open>1 / x\<close>.
  A double is modelled as a real number or one of the three IEEE specials; rounding and
  the sign of zero are not represented (the reciprocal of zero is that of \<^verbatim>\<open>+0\<close>).
  Sample counts are \<^verbatim>\<open>size_t\<close> in the source and \<open>nat\<close> here: the code adds and
  subtracts them only where the result stays in range.
\<close>

datatype double = Fin real | PInf | NInf | NaN

text \<open>\<^verbatim>\<open>x <= 0\<close>\<close>

fun double_le_zero :: "double \<Rightarrow> bool" where
  "double_le_zero (Fin x) = (x \<le> 0)"
| "double_le_zero NInf = True"
| "double_le_zero PInf = False"
| "double_le_zero NaN = False"

text \<open>\<^verbatim>\<open>a != b\<close> (and JavaScript's \<^verbatim>\<open>a !== b\<close> on two numbers): NaN differs from everything.\<close>

fun double_ne :: "double \<Rightarrow> double \<Rightarrow> bool" where
  "double_ne NaN b = True"
| "double_ne a NaN = True"
| "double_ne a b = (a \<noteq> b)"

text \<open>JavaScript's \<^verbatim>\<open>1 / x\<close>.\<close>

fun js_reciprocal :: "double \<Rightarrow> double" where
  "js_reciprocal (Fin x) = (if x = 0 then PInf else Fin (1 / x))"
| "js_reciprocal PInf = Fin 0"
| "js_reciprocal NInf = Fin 0"
| "js_reciprocal NaN = NaN"

text \<open>JavaScript's truthiness of a number: \<^verbatim>\<open>0\<close> and \<^verbatim>\<open>NaN\<close> are falsy.\<close>

fun js_truthy :: "double \<Rightarrow> bool" where
  "js_truthy (Fin x) = (x \<noteq> 0)"
| "js_truthy NaN = False"
| "js_truthy PInf = True"
| "js_truthy NInf = True"

section \<open>Errors\<close>

text \<open>
  \<open>range_error\<close> is the \<^verbatim>\<open>std::range_error\<close> the C++ class throws, with its message;
  \<open>js_RangeError\<close> and \<open>js_TypeError\<close> are the exceptions JavaScript raises when a typed
  array is set from a longer one and when a method is called on \<^verbatim>\<open>undefined\<close>.
\<close>

datatype error = range_error string | js_RangeError | js_TypeError

section \<open>The ring buffer of one channel\<close>

text \<open>
  Modelled from the spec: \<^verbatim>\<open>RubberBand::RingBuffer<float>\<close>, the per-channel sample queue
  (section 4.1 of the specification, ChannelRingBuffer); the class is not part of the sources.
  A buffer has a fixed capacity and holds the unread samples, oldest first. \<open>rb_write\<close>
  appends up to \<open>n\<close> samples and drops the newest ones that do not fit, returning how many
  it wrote; \<open>rb_read\<close> hands out up to \<open>n\<close> of the oldest samples.
\<close>

record 's RingBuffer =
  rb_size :: nat
  rb_data :: "'s list"

definition RingBuffer_new :: "nat \<Rightarrow> 's RingBuffer" where
  "RingBuffer_new n = \<lparr>rb_size = n, rb_data = []\<rparr>"

definition getReadSpace :: "'s RingBuffer \<Rightarrow> nat" where
  "getReadSpace rb = length (rb_data rb)"

definition getWriteSpace :: "'s RingBuffer \<Rightarrow> nat" where
  "getWriteSpace rb = rb_size rb - length (rb_data rb)"

definition rb_write :: "'s RingBuffer \<Rightarrow> (nat \<Rightarrow> 's) \<Rightarrow> nat \<Rightarrow> 's RingBuffer \<times> nat" where
  "rb_write rb source n =
     (let written = min n (getWriteSpace rb)
      in (rb\<lparr>rb_data := rb_data rb @ map source [0..<written]\<rparr>, written))"

definition rb_read :: "'s RingBuffer \<Rightarrow> nat \<Rightarrow> 's list \<times> 's RingBuffer" where
  "rb_read rb n =
     (let k = min n (getReadSpace rb)
      in (take k (rb_data rb), rb\<lparr>rb_data := drop k (rb_data rb)\<rparr>))"

section \<open>The time-stretch engine\<close>

text \<open>
  \<^verbatim>\<open>RubberBand::RubberBandStretcher\<close> is an external library: the session only calls it.
  It is a parameter of the model, a record of the operations the code uses, over an
  engine state \<open>'e\<close> and a sample type \<open>'s\<close>. \<open>st_process\<close> receives one row of
  \<open>sample_size\<close> samples per channel. \<open>st_retrieve\<close> receives the scratch memory (indexed
  by channel and position) and the number of samples asked for, and returns the number it
  copied, the scratch memory afterwards and the new engine state.
\<close>

datatype Options = kDefaultOption | kHighQuality

record ('e, 's) RubberBandStretcher =
  st_new :: "nat \<Rightarrow> nat \<Rightarrow> Options \<Rightarrow> 'e"
  st_getEngineVersion :: "'e \<Rightarrow> int"
  st_getTimeRatio :: "'e \<Rightarrow> double"
  st_getPitchScale :: "'e \<Rightarrow> double"
  st_getFormantScale :: "'e \<Rightarrow> double"
  st_setTimeRatio :: "'e \<Rightarrow> double \<Rightarrow> 'e"
  st_setPitchScale :: "'e \<Rightarrow> double \<Rightarrow> 'e"
  st_setFormantScale :: "'e \<Rightarrow> double \<Rightarrow> 'e"
  st_setMaxProcessSize :: "'e \<Rightarrow> nat \<Rightarrow> 'e"
  st_reset :: "'e \<Rightarrow> 'e"
  st_process :: "'e \<Rightarrow> 's list list \<Rightarrow> nat \<Rightarrow> bool \<Rightarrow> 'e"
  st_available :: "'e \<Rightarrow> int"
  st_retrieve :: "'e \<Rightarrow> (nat \<Rightarrow> nat \<Rightarrow> 's) \<Rightarrow> nat \<Rightarrow> nat \<times> (nat \<Rightarrow> nat \<Rightarrow> 's) \<times> 'e"
  st_getPreferredStartPad :: "'e \<Rightarrow> nat"
  st_getStartDelay :: "'e \<Rightarrow> nat"

text \<open>The calls that change the engine, as the session makes them.\<close>

datatype engine_call =
    Process nat
  | Retrieve nat
  | Reset
  | SetMaxProcessSize nat
  | SetTimeRatio double
  | SetPitchScale double
  | SetFormantScale double

section \<open>The C++ session: \<^verbatim>\<open>RealtimeRubberBand.cpp\<close>\<close>

text \<open>
  The fields of the class, without their trailing underscore. Two fields are observations
  of the model and no members of the class: \<open>calls\<close> lists, in order, the state-changing
  calls made on \<^verbatim>\<open>stretcher_\<close>, and \<open>cerr\<close> the lines written to \<^verbatim>\<open>std::cerr\<close>.
\<close>

record ('e, 's) kernel =
  stretcher :: 'e
  output_buffer :: "'s RingBuffer list"
  scratch :: "nat \<Rightarrow> nat \<Rightarrow> 's"
  start_pad_samples :: nat
  start_delay_samples :: nat
  channel_count :: nat
  max_process_size :: nat
  calls :: "engine_call list"
  cerr :: "string list"

subsection \<open>Calls on the engine\<close>

definition stretcher_reset ::
  "('e, 's) RubberBandStretcher \<Rightarrow> ('e, 's) kernel \<Rightarrow> ('e, 's) kernel" where
  "stretcher_reset E s = s\<lparr>stretcher := st_reset E (stretcher s), calls := calls s @ [Reset]\<rparr>"

definition stretcher_setMaxProcessSize ::
  "('e, 's) RubberBandStretcher \<Rightarrow> ('e, 's) kernel \<Rightarrow> nat \<Rightarrow> ('e, 's) kernel" where
  "stretcher_setMaxProcessSize E s n =
     s\<lparr>stretcher := st_setMaxProcessSize E (stretcher s) n,
       calls := calls s @ [SetMaxProcessSize n]\<rparr>"

definition stretcher_setTimeRatio ::
  "('e, 's) RubberBandStretcher \<Rightarrow> ('e, 's) kernel \<Rightarrow> double \<Rightarrow> ('e, 's) kernel" where
  "stretcher_setTimeRatio E s r =
     s\<lparr>stretcher := st_setTimeRatio E (stretcher s) r, calls := calls s @ [SetTimeRatio r]\<rparr>"

definition stretcher_setPitchScale ::
  "('e, 's) RubberBandStretcher \<Rightarrow> ('e, 's) kernel \<Rightarrow> double \<Rightarrow> ('e, 's) kernel" where
  "stretcher_setPitchScale E s r =
     s\<lparr>stretcher := st_setPitchScale E (stretcher s) r, calls := calls s @ [SetPitchScale r]\<rparr>"

definition stretcher_setFormantScale ::
  "('e, 's) RubberBandStretcher \<Rightarrow> ('e, 's) kernel \<Rightarrow> double \<Rightarrow> ('e, 's) kernel" where
  "stretcher_setFormantScale E s r =
     s\<lparr>stretcher := st_setFormantScale E (stretcher s) r,
       calls := calls s @ [SetFormantScale r]\<rparr>"

definition stretcher_process ::
  "('e, 's) RubberBandStretcher \<Rightarrow> ('e, 's) kernel \<Rightarrow> 's list list \<Rightarrow> nat \<Rightarrow> bool
     \<Rightarrow> ('e, 's) kernel" where
  "stretcher_process E s rows n final =
     s\<lparr>stretcher := st_process E (stretcher s) rows n final, calls := calls s @ [Process n]\<rparr>"

text \<open>\<^verbatim>\<open>stretcher_->retrieve(scratch_, n)\<close>: the count the engine returns, and the session after.\<close>

definition stretcher_retrieve ::
  "('e, 's) RubberBandStretcher \<Rightarrow> ('e, 's) kernel \<Rightarrow> nat \<Rightarrow> nat \<times> ('e, 's) kernel" where
  "stretcher_retrieve E s n =
     (case st_retrieve E (stretcher s) (scratch s) n of
        (actual, sc, e) \<Rightarrow>
          (actual, s\<lparr>stretcher := e, scratch := sc, calls := calls s @ [Retrieve n]\<rparr>))"

subsection \<open>\<^verbatim>\<open>updateRatio\<close>, the constructor, \<^verbatim>\<open>getVersion\<close>\<close>

definition updateRatio ::
  "('e, 's) RubberBandStretcher \<Rightarrow> ('e, 's) kernel \<Rightarrow> ('e, 's) kernel" where
  "updateRatio E s =
     s\<lparr>start_pad_samples := st_getPreferredStartPad E (stretcher s),
       start_delay_samples := st_getStartDelay E (stretcher s)\<rparr>"

text \<open>
  \<open>kBlockSize\<close> and \<open>kReserve\<close> are the constants \<^verbatim>\<open>kBlockSize_\<close> and \<^verbatim>\<open>kReserve_\<close> of the
  class's header, which is not part of the sources; \<open>mem\<close> is what the freshly allocated
  scratch arrays hold. \<^verbatim>\<open>sampleRate\<close> and \<^verbatim>\<open>channel_count\<close> are \<^verbatim>\<open>size_t\<close>: they have no
  negative values.
\<close>

definition RealtimeRubberBand_new ::
  "('e, 's) RubberBandStretcher \<Rightarrow> nat \<Rightarrow> nat \<Rightarrow> (nat \<Rightarrow> nat \<Rightarrow> 's) \<Rightarrow> nat \<Rightarrow> nat \<Rightarrow> bool
     \<Rightarrow> error + ('e, 's) kernel" where
  "RealtimeRubberBand_new E kBlockSize kReserve mem sampleRate channel_count' high_quality =
     (if sampleRate \<le> 0 then Inl (range_error ''Sample rate has to be greater than 0'')
      else if channel_count' \<le> 0 then Inl (range_error ''Channel count has to be greater than 0'')
      else
        (let buffer_size = kBlockSize + kReserve + 8192
         in Inr (updateRatio E
              \<lparr>stretcher = st_new E sampleRate channel_count'
                 (if high_quality then kHighQuality else kDefaultOption),
               output_buffer = replicate channel_count' (RingBuffer_new buffer_size),
               scratch = mem,
               start_pad_samples = 0,
               start_delay_samples = 0,
               channel_count = channel_count',
               max_process_size = 0,
               calls = [],
               cerr = []\<rparr>)))"

definition getVersion :: "('e, 's) RubberBandStretcher \<Rightarrow> ('e, 's) kernel \<Rightarrow> int" where
  "getVersion E s = st_getEngineVersion E (stretcher s)"

subsection \<open>\<^verbatim>\<open>fetchProcessed\<close>\<close>

text \<open>The loop of lines 158 to 160: every channel's ring buffer is written \<open>actual\<close> samples.\<close>

fun write_loop :: "nat \<Rightarrow> nat list \<Rightarrow> ('e, 's) kernel \<Rightarrow> ('e, 's) kernel" where
  "write_loop actual [] s = s"
| "write_loop actual (channel # rest) s =
     write_loop actual rest
       (s\<lparr>output_buffer := (output_buffer s)
            [channel := fst (rb_write (output_buffer s ! channel) (scratch s channel) actual)]\<rparr>)"

text \<open>Lines 153 to 160: the overrun check, the retrieval and the writes.\<close>

definition fetch_write ::
  "('e, 's) RubberBandStretcher \<Rightarrow> ('e, 's) kernel \<Rightarrow> nat \<Rightarrow> ('e, 's) kernel" where
  "fetch_write E s available =
     (let s1 = (if getWriteSpace (output_buffer s ! 0) \<le> available
                then s\<lparr>cerr := cerr s @ [''BUFFER OVERRUN'']\<rparr> else s)
      in case stretcher_retrieve E s1 available of
           (actual, s2) \<Rightarrow> write_loop actual [0..<channel_count s2] s2)"

text \<open>
  \<^verbatim>\<open>available()\<close> returns an \<^verbatim>\<open>int\<close>; past the test \<^verbatim>\<open>available > 0\<close> it is a natural number.
\<close>

definition fetchProcessed ::
  "('e, 's) RubberBandStretcher \<Rightarrow> ('e, 's) kernel \<Rightarrow> ('e, 's) kernel" where
  "fetchProcessed E s =
     (let available = st_available E (stretcher s) in
      if available > 0 then
        (if start_delay_samples s > 0 then
           (if nat available \<ge> start_delay_samples s then
              (let s1 = snd (stretcher_retrieve E s (start_delay_samples s));
                   available' = nat available - start_delay_samples s1
               in fetch_write E (s1\<lparr>start_delay_samples := 0\<rparr>) available')
            else
              (let s1 = snd (stretcher_retrieve E s (nat available))
               in s1\<lparr>start_delay_samples := start_delay_samples s1 - nat available\<rparr>))
         else fetch_write E s (nat available))
      else s)"

subsection \<open>The ratio setters and \<^verbatim>\<open>setMaxProcessSize\<close>\<close>

text \<open>Lines 54 to 58 (and 69 to 73, 84 to 88): what every setter does before it applies the new ratio.\<close>

definition drain_and_reset ::
  "('e, 's) RubberBandStretcher \<Rightarrow> ('e, 's) kernel \<Rightarrow> ('e, 's) kernel" where
  "drain_and_reset E s =
     (let s1 = fetchProcessed E s;
          s2 = stretcher_reset E s1
      in if max_process_size s2 > 0 then stretcher_setMaxProcessSize E s2 (max_process_size s2)
         else s2)"

definition setTempo ::
  "('e, 's) RubberBandStretcher \<Rightarrow> ('e, 's) kernel \<Rightarrow> double \<Rightarrow> error + ('e, 's) kernel" where
  "setTempo E s tempo =
     (if double_le_zero tempo then Inl (range_error ''Tempo has to be greater than 0'')
      else if double_ne (st_getTimeRatio E (stretcher s)) tempo
      then Inr (updateRatio E (stretcher_setTimeRatio E (drain_and_reset E s) tempo))
      else Inr s)"

definition setPitch ::
  "('e, 's) RubberBandStretcher \<Rightarrow> ('e, 's) kernel \<Rightarrow> double \<Rightarrow> error + ('e, 's) kernel" where
  "setPitch E s pitch =
     (if double_le_zero pitch then Inl (range_error ''Pitch has to be greater than 0'')
      else if double_ne (st_getPitchScale E (stretcher s)) pitch
      then Inr (updateRatio E (stretcher_setPitchScale E (drain_and_reset E s) pitch))
      else Inr s)"

definition setFormantScale ::
  "('e, 's) RubberBandStretcher \<Rightarrow> ('e, 's) kernel \<Rightarrow> double \<Rightarrow> error + ('e, 's) kernel" where
  "setFormantScale E s scale =
     (if double_le_zero scale then Inl (range_error ''Format scale has to be greater than 0'')
      else if double_ne (st_getFormantScale E (stretcher s)) scale
      then Inr (updateRatio E (stretcher_setFormantScale E (drain_and_reset E s) scale))
      else Inr s)"

definition setMaxProcessSize ::
  "('e, 's) RubberBandStretcher \<Rightarrow> ('e, 's) kernel \<Rightarrow> nat \<Rightarrow> ('e, 's) kernel" where
  "setMaxProcessSize E s n = stretcher_setMaxProcessSize E (s\<lparr>max_process_size := n\<rparr>) n"

definition getSamplesAvailable :: "('e, 's) kernel \<Rightarrow> nat" where
  "getSamplesAvailable s = getReadSpace (output_buffer s ! 0)"

subsection \<open>\<^verbatim>\<open>push\<close> and \<^verbatim>\<open>pull\<close>\<close>

text \<open>
  \<open>input\<close> and \<open>output\<close> are the memory at \<^verbatim>\<open>input_ptr\<close> and \<^verbatim>\<open>output_ptr\<close>, as functions
  from the offset in floats to the sample there. \<^verbatim>\<open>push\<close> has no \<^verbatim>\<open>throw\<close>: its result
  is always \<open>Inr\<close>.
\<close>

definition push ::
  "('e, 's) RubberBandStretcher \<Rightarrow> ('e, 's) kernel \<Rightarrow> (nat \<Rightarrow> 's) \<Rightarrow> nat \<Rightarrow> error + ('e, 's) kernel" where
  "push E s input sample_size =
     (let arr_to_process =
            map (\<lambda>channel. map (\<lambda>i. input (channel * sample_size + i)) [0..<sample_size])
              [0..<channel_count s];
          s1 = stretcher_process E s arr_to_process sample_size False
      in Inr (fetchProcessed E s1))"

text \<open>Storing a run of samples at an offset of a memory.\<close>

definition store :: "(nat \<Rightarrow> 's) \<Rightarrow> nat \<Rightarrow> 's list \<Rightarrow> (nat \<Rightarrow> 's)" where
  "store m off xs = (\<lambda>a. if off \<le> a \<and> a < off + length xs then xs ! (a - off) else m a)"

fun pull_loop ::
  "nat \<Rightarrow> nat list \<Rightarrow> ('e, 's) kernel \<times> (nat \<Rightarrow> 's) \<Rightarrow> ('e, 's) kernel \<times> (nat \<Rightarrow> 's)" where
  "pull_loop sample_size [] (s, output) = (s, output)"
| "pull_loop sample_size (channel # rest) (s, output) =
     (let available = getReadSpace (output_buffer s ! channel) in
      if available = 0 then (s\<lparr>cerr := cerr s @ [''BUFFER UNDERRUN'']\<rparr>, output)
      else
        (case rb_read (output_buffer s ! channel) (min available sample_size) of
           (xs, rb) \<Rightarrow>
             pull_loop sample_size rest
               (s\<lparr>output_buffer := (output_buffer s)[channel := rb]\<rparr>,
                store output (channel * sample_size) xs)))"

definition pull ::
  "('e, 's) kernel \<Rightarrow> (nat \<Rightarrow> 's) \<Rightarrow> nat \<Rightarrow> ('e, 's) kernel \<times> (nat \<Rightarrow> 's)" where
  "pull s output sample_size = pull_loop sample_size [0..<channel_count s] (s, output)"

subsection \<open>Reachable sessions\<close>

text \<open>
  The sessions a caller can bring about: a successful construction, followed by calls of
  the public methods.
\<close>

inductive reachable ::
  "('e, 's) RubberBandStretcher \<Rightarrow> nat \<Rightarrow> nat \<Rightarrow> ('e, 's) kernel \<Rightarrow> bool"
  for E :: "('e, 's) RubberBandStretcher" and kBlockSize :: nat and kReserve :: nat where
  reach_new:
    "RealtimeRubberBand_new E kBlockSize kReserve mem sampleRate n high_quality = Inr s
       \<Longrightarrow> reachable E kBlockSize kReserve s"
| reach_setTempo:
    "reachable E kBlockSize kReserve s \<Longrightarrow> setTempo E s r = Inr s'
       \<Longrightarrow> reachable E kBlockSize kReserve s'"
| reach_setPitch:
    "reachable E kBlockSize kReserve s \<Longrightarrow> setPitch E s r = Inr s'
       \<Longrightarrow> reachable E kBlockSize kReserve s'"
| reach_setFormantScale:
    "reachable E kBlockSize kReserve s \<Longrightarrow> setFormantScale E s r = Inr s'
       \<Longrightarrow> reachable E kBlockSize kReserve s'"
| reach_setMaxProcessSize:
    "reachable E kBlockSize kReserve s
       \<Longrightarrow> reachable E kBlockSize kReserve (setMaxProcessSize E s n)"
| reach_push:
    "reachable E kBlockSize kReserve s \<Longrightarrow> push E s input sample_size = Inr s'
       \<Longrightarrow> reachable E kBlockSize kReserve s'"
| reach_pull:
    "reachable E kBlockSize kReserve s
       \<Longrightarrow> reachable E kBlockSize kReserve (fst (pull s output sample_size))"

text \<open>
  Sample-aligned channels: one ring buffer per channel, all of one capacity and one fill count.
\<close>

definition aligned :: "('e, 's) kernel \<Rightarrow> bool" where
  "aligned s \<longleftrightarrow>
     0 < channel_count s \<and> length (output_buffer s) = channel_count s \<and>
     (\<forall>rb \<in> set (output_buffer s).
        rb_size rb = rb_size (output_buffer s ! 0) \<and>
        getReadSpace rb = getReadSpace (output_buffer s ! 0))"

section \<open>The TypeScript wrapper: \<^verbatim>\<open>RealtimeRubberBand.ts\<close>\<close>

text \<open>
  \<^verbatim>\<open>HeapArray\<close> is not part of the sources. The wrapper hands its heap address to the kernel
  and reads \<^verbatim>\<open>getChannelArray(channel)\<close>, a \<^verbatim>\<open>Float32Array\<close>. Here a heap array is the
  memory from its heap address on, and for each channel the window of that memory the
  channel's array shows (offset and length in floats), which is left open; a channel
  without a window stands for \<^verbatim>\<open>undefined\<close>.
\<close>

record 's HeapArray =
  heap :: "nat \<Rightarrow> 's"
  channel_view :: "nat \<Rightarrow> (nat \<times> nat) option"

definition getChannelArray :: "'s HeapArray \<Rightarrow> nat \<Rightarrow> 's list option" where
  "getChannelArray h channel =
     (case channel_view h channel of
        None \<Rightarrow> None
      | Some (off, len) \<Rightarrow> Some (map (\<lambda>i. heap h (off + i)) [0..<len]))"

text \<open>
  What the wrapper takes from the loaded module: the engine, the constants of the C++
  header, the contents of fresh scratch memory, and the constructor of \<^verbatim>\<open>HeapArray\<close>
  (given the length and the channel count).
\<close>

record ('e, 's) RubberBandModule =
  engine :: "('e, 's) RubberBandStretcher"
  kBlockSize :: nat
  kReserve :: nat
  fresh_scratch :: "nat \<Rightarrow> nat \<Rightarrow> 's"
  new_HeapArray :: "nat \<Rightarrow> nat \<Rightarrow> 's HeapArray"

definition RENDER_QUANTUM_FRAMES :: nat where
  "RENDER_QUANTUM_FRAMES = 128"

record RealtimeRubberBandOptions =
  opt_highQuality :: "bool option"
  opt_pitch :: "double option"
  opt_tempo :: "double option"

text \<open>The fields of the class; \<^verbatim>\<open>_tempo\<close> is written \<open>w_tempo\<close>, and so on.\<close>

record ('e, 's) wrapper =
  w_highQuality :: bool
  w_channelCount :: nat
  w_kernel :: "('e, 's) kernel"
  w_inputArray :: "'s HeapArray"
  w_outputArray :: "'s HeapArray"
  w_tempo :: double
  w_pitch :: double

text \<open>\<^verbatim>\<open>x || 1\<close> for an optional number \<open>x\<close>.\<close>

definition or_one :: "double option \<Rightarrow> double" where
  "or_one x = (case x of None \<Rightarrow> Fin 1 | Some v \<Rightarrow> if js_truthy v then v else Fin 1)"

definition wrapper_new ::
  "('e, 's) RubberBandModule \<Rightarrow> nat \<Rightarrow> nat \<Rightarrow> RealtimeRubberBandOptions option
     \<Rightarrow> error + ('e, 's) wrapper" where
  "wrapper_new M sampleRate channelCount options =
     (let highQuality =
            (case options of None \<Rightarrow> False
             | Some opts \<Rightarrow> (case opt_highQuality opts of None \<Rightarrow> False | Some b \<Rightarrow> b));
          pitch = (case options of None \<Rightarrow> None | Some opts \<Rightarrow> opt_pitch opts);
          tempo = (case options of None \<Rightarrow> None | Some opts \<Rightarrow> opt_tempo opts)
      in case RealtimeRubberBand_new (engine M) (kBlockSize M) (kReserve M) (fresh_scratch M)
                sampleRate channelCount highQuality of
           Inl e \<Rightarrow> Inl e
         | Inr k \<Rightarrow>
             (let w = \<lparr>w_highQuality = highQuality,
                       w_channelCount = channelCount,
                       w_kernel = setMaxProcessSize (engine M) k RENDER_QUANTUM_FRAMES,
                       w_inputArray = new_HeapArray M RENDER_QUANTUM_FRAMES channelCount,
                       w_outputArray = new_HeapArray M RENDER_QUANTUM_FRAMES channelCount,
                       w_tempo = or_one tempo,
                       w_pitch = or_one pitch\<rparr>
              in case tempo of
                   None \<Rightarrow> Inr w
                 | Some t \<Rightarrow>
                     if js_truthy t \<and> double_ne t (Fin 1)
                     then (case setTempo (engine M) (w_kernel w) (js_reciprocal t) of
                             Inl e \<Rightarrow> Inl e
                           | Inr k' \<Rightarrow> Inr (w\<lparr>w_kernel := k'\<rparr>))
                     else Inr w))"

definition timeRatio_get :: "('e, 's) wrapper \<Rightarrow> double" where
  "timeRatio_get w = w_tempo w"

text \<open>
  The setter assigns \<^verbatim>\<open>_tempo\<close> before it calls the kernel: the result is the object after
  the call, and the exception if the kernel threw one.
\<close>

definition timeRatio_set ::
  "('e, 's) RubberBandModule \<Rightarrow> ('e, 's) wrapper \<Rightarrow> double \<Rightarrow> ('e, 's) wrapper \<times> error option" where
  "timeRatio_set M w timeRatio =
     (let w1 = w\<lparr>w_tempo := timeRatio\<rparr>
      in case setTempo (engine M) (w_kernel w1) (js_reciprocal timeRatio) of
           Inl e \<Rightarrow> (w1, Some e)
         | Inr k \<Rightarrow> (w1\<lparr>w_kernel := k\<rparr>, None))"

definition samplesAvailable :: "('e, 's) wrapper \<Rightarrow> nat" where
  "samplesAvailable w = getSamplesAvailable (w_kernel w)"

text \<open>\<^verbatim>\<open>target.set(source)\<close> on typed arrays: a source longer than the target is a RangeError.\<close>

definition typed_array_set :: "'s list \<Rightarrow> 's list \<Rightarrow> error + 's list" where
  "typed_array_set target source =
     (if length source > length target then Inl js_RangeError
      else Inr (source @ drop (length source) target))"

text \<open>The loop of lines 95 to 97. An exception ends the call; the model keeps the exception only.\<close>

fun copy_loop :: "'s HeapArray \<Rightarrow> nat \<Rightarrow> nat list \<Rightarrow> 's list list \<Rightarrow> error + 's list list" where
  "copy_loop h toPull [] channels = Inr channels"
| "copy_loop h toPull (channel # rest) channels =
     (case getChannelArray h channel of
        None \<Rightarrow> Inl js_TypeError
      | Some view \<Rightarrow>
          (case typed_array_set (channels ! channel) (take toPull view) of
             Inl e \<Rightarrow> Inl e
           | Inr filled \<Rightarrow> copy_loop h toPull rest (channels[channel := filled])))"

text \<open>
  \<^verbatim>\<open>pull(channels)\<close>: the result is the object after the call and the array \<^verbatim>\<open>channels\<close>,
  which the method returns.
\<close>

definition ts_pull ::
  "('e, 's) wrapper \<Rightarrow> 's list list \<Rightarrow> error + ('e, 's) wrapper \<times> 's list list" where
  "ts_pull w channels =
     (let channelCount = length channels in
      if channelCount > 0 then
        (let available = getSamplesAvailable (w_kernel w);
             outputLength = length (channels ! 0);
             toPull = min available outputLength
         in if toPull > 0 then
              (case pull (w_kernel w) (heap (w_outputArray w)) toPull of
                 (k, m) \<Rightarrow>
                   (let w1 = w\<lparr>w_kernel := k, w_outputArray := (w_outputArray w)\<lparr>heap := m\<rparr>\<rparr>
                    in case copy_loop (w_outputArray w1) toPull [0..<length channels] channels of
                         Inl e \<Rightarrow> Inl e
                       | Inr channels' \<Rightarrow> Inr (w1, channels')))
            else Inr (w, channels))
      else Inr (w, channels))"

section \<open>A test engine and test sessions\<close>

text \<open>
  An engine for concrete runs: it hands back, channel by channel, the samples it was given,
  and reports a fixed start delay. Samples are natural numbers.
\<close>

record loopback =
  lb_time :: double
  lb_pitch :: double
  lb_formant :: double
  lb_max :: nat
  lb_queue :: "nat list list"

definition lb_ready :: "loopback \<Rightarrow> nat" where
  "lb_ready e = (case lb_queue e of [] \<Rightarrow> 0 | q # _ \<Rightarrow> length q)"

definition loopback_engine :: "nat \<Rightarrow> (loopback, nat) RubberBandStretcher" where
  "loopback_engine delay =
     \<lparr>st_new = (\<lambda>rate channels opts.
         \<lparr>lb_time = Fin 1, lb_pitch = Fin 1, lb_formant = Fin 1, lb_max = 0,
          lb_queue = replicate channels []\<rparr>),
      st_getEngineVersion = (\<lambda>e. 3),
      st_getTimeRatio = lb_time,
      st_getPitchScale = lb_pitch,
      st_getFormantScale = lb_formant,
      st_setTimeRatio = (\<lambda>e r. e\<lparr>lb_time := r\<rparr>),
      st_setPitchScale = (\<lambda>e r. e\<lparr>lb_pitch := r\<rparr>),
      st_setFormantScale = (\<lambda>e r. e\<lparr>lb_formant := r\<rparr>),
      st_setMaxProcessSize = (\<lambda>e n. e\<lparr>lb_max := n\<rparr>),
      st_reset = (\<lambda>e. e\<lparr>lb_queue := map (\<lambda>q. []) (lb_queue e)\<rparr>),
      st_process = (\<lambda>e rows n final.
         e\<lparr>lb_queue := map (\<lambda>(q, row). q @ row) (zip (lb_queue e) rows)\<rparr>),
      st_available = (\<lambda>e. int (lb_ready e)),
      st_retrieve = (\<lambda>e sc n.
         (let k = min n (lb_ready e)
          in (k,
              (\<lambda>c i. if c < length (lb_queue e) \<and> i < k then lb_queue e ! c ! i else sc c i),
              e\<lparr>lb_queue := map (drop k) (lb_queue e)\<rparr>))),
      st_getPreferredStartPad = (\<lambda>e. 0),
      st_getStartDelay = (\<lambda>e. delay)\<rparr>"

text \<open>A fresh two-channel session on the test engine with the given start delay.\<close>

definition demo_new :: "nat \<Rightarrow> (loopback, nat) kernel" where
  "demo_new delay =
     projr (RealtimeRubberBand_new (loopback_engine delay) 1024 8192 (\<lambda>c i. 0) 48000 2 False)"

text \<open>The same with a fixed block size of 4 configured.\<close>

definition demo_fixed :: "(loopback, nat) kernel" where
  "demo_fixed = setMaxProcessSize (loopback_engine 0) (demo_new 0) 4"


text \<open>
  The same with a fixed block size of 4 configured first and four samples per channel
  processed and not fetched yet.
\<close>

definition demo_pending_fixed :: "(loopback, nat) kernel" where
  "demo_pending_fixed =
     stretcher_process (loopback_engine 2)
       (setMaxProcessSize (loopback_engine 2) (demo_new 2) 4) [[0, 1, 2, 3], [4, 5, 6, 7]] 4 False"

text \<open>
  The fresh two-channel session without start delay after one push of 17406 samples (all
  zero) per channel: every ring buffer, of capacity 17408, has two free places.
\<close>

definition demo_filled :: "(loopback, nat) kernel" where
  "demo_filled = projr (push (loopback_engine 0) (demo_new 0) (\<lambda>a. 0) 17406)"

text \<open>
  The session with fixed block size 4 after a push of two samples per channel (0, 1 and
  2, 3) and a pull of one sample per channel.
\<close>

definition demo_streamed :: "(loopback, nat) kernel" where
  "demo_streamed =
     fst (pull (projr (push (loopback_engine 0) demo_fixed (\<lambda>a. a) 2)) (\<lambda>a. 0) 1)"

text \<open>
  A module for concrete runs: the test engine without start delay, a ring buffer capacity
  of 1024 + 8192 + 8192 samples, zeroed memory, and heap arrays whose channel \<open>c\<close> shows
  the \<open>len\<close> floats from offset \<open>c * len\<close>. This is the layout the wrapper's
  \<^verbatim>\<open>push\<close> relies on: it sets a block of 128 samples into every channel's array of the
  input heap array and hands the kernel the heap address with the size 128, and the kernel
  reads channel \<open>c\<close> from offset \<open>c * 128\<close>.
\<close>

definition demo_module :: "(loopback, nat) RubberBandModule" where
  "demo_module =
     \<lparr>engine = loopback_engine 0,
      kBlockSize = 1024,
      kReserve = 8192,
      fresh_scratch = (\<lambda>c i. 0),
      new_HeapArray = (\<lambda>len n.
         \<lparr>heap = (\<lambda>a. 0),
          channel_view = (\<lambda>c. if c < n then Some (c * len, len) else None)\<rparr>)\<rparr>"

text \<open>
  A one-channel wrapper whose kernel has been pushed the given samples (one block), so
  that its ring buffer holds them.
\<close>

definition demo_wrapper :: "nat list \<Rightarrow> (loopback, nat) wrapper" where
  "demo_wrapper xs =
     (let w = projr (wrapper_new demo_module 48000 1 None)
      in w\<lparr>w_kernel := projr (push (loopback_engine 0) (w_kernel w) (\<lambda>a. xs ! a) (length xs))\<rparr>)"

text \<open>
  A two-channel wrapper whose kernel has been pushed two samples per channel (1, 2 and
  3, 4), so that its ring buffers hold them.
\<close>

definition demo_stereo :: "(loopback, nat) wrapper" where
  "demo_stereo =
     (let w = projr (wrapper_new demo_module 48000 2 None)
      in w\<lparr>w_kernel := projr (push (loopback_engine 0) (w_kernel w) (\<lambda>a. a + 1) 2)\<rparr>)"

text \<open>A fresh one-channel wrapper on the test module, built without options.\<close>

definition demo_wrapper_new :: "(loopback, nat) wrapper" where
  "demo_wrapper_new = projr (wrapper_new demo_module 48000 1 None)"

section \<open>Notions the claims use\<close>

text \<open>The number of \<^verbatim>\<open>reset()\<close> calls a session has made on its engine.\<close>

definition reset_count :: "('e, 's) kernel \<Rightarrow> nat" where
  "reset_count s = length (filter (\<lambda>c. c = Reset) (calls s))"

text \<open>
  What one fetch makes of a session, written on the operations of the engine and of the
  ring buffers alone. With \<open>A\<close> samples available and a remaining start delay \<open>d\<close>:
  if \<open>A\<close> is not positive, nothing happens. If \<open>A < d\<close>, the engine is asked for
  \<open>A\<close> samples, which stay in scratch, and the start delay drops by \<open>A\<close>. Otherwise the
  engine is first asked for the \<open>d\<close> samples of the start delay (no request when
  \<open>d = 0\<close>), then for the surplus \<open>A - d\<close>; the ring buffer of every channel is
  written the samples the second request returned, from the channel's scratch row; and
  the start delay is 0 (when \<open>A = d\<close> the second request asks for no samples). These
  are the steps 1, 2 and 4 of the fetch of section 4.2 of the specification. The line a
  fetch may write to \<^verbatim>\<open>std::cerr\<close> is no part of the outcome, which keeps \<open>cerr\<close> as
  it was.
\<close>

definition fetch_outcome ::
  "('e, 's) RubberBandStretcher \<Rightarrow> ('e, 's) kernel \<Rightarrow> ('e, 's) kernel" where
  "fetch_outcome E s =
     (let A = nat (st_available E (stretcher s)); d = start_delay_samples s in
      if A = 0 then s
      else if A < d then
        (case st_retrieve E (stretcher s) (scratch s) A of
           (discarded, sc, e) \<Rightarrow>
             s\<lparr>stretcher := e, scratch := sc, start_delay_samples := d - A,
               calls := calls s @ [Retrieve A]\<rparr>)
      else
        (case (if d = 0 then (0, scratch s, stretcher s)
               else st_retrieve E (stretcher s) (scratch s) d) of
           (discarded, sc1, e1) \<Rightarrow>
             (case st_retrieve E e1 sc1 (A - d) of
                (actual, sc2, e2) \<Rightarrow>
                  s\<lparr>stretcher := e2, scratch := sc2, start_delay_samples := 0,
                    output_buffer :=
                      map (\<lambda>c. fst (rb_write (output_buffer s ! c) (sc2 c) actual))
                        [0..<channel_count s],
                    calls := calls s @ (if d = 0 then [] else [Retrieve d]) @ [Retrieve (A - d)]\<rparr>)))"

text \<open>
  The parameter-change protocol of section 4.3 of the specification, between the session
  \<open>s\<close> before a setter and the session \<open>s'\<close> after it; \<open>apply_ratio\<close> is the
  setter's own call on the engine and \<open>set_ratio\<close> what that call does to the engine.
  First comes one fetch, with the outcome \<open>f\<close> written out above: its requests to the
  engine, and what it left in the ring buffers and in scratch, are kept.
  After the requests of the fetch the engine sees one reset, the fixed block size again if
  one is configured, and the new ratio, and its state is the one these calls produce from
  the state the fetch left; the reset is the only one; start pad and start delay are those
  the engine reports afterwards.
\<close>

definition follows_protocol ::
  "('e, 's) RubberBandStretcher \<Rightarrow> ('e, 's) kernel \<Rightarrow> ('e, 's) kernel \<Rightarrow> engine_call
     \<Rightarrow> ('e \<Rightarrow> 'e) \<Rightarrow> bool" where
  "follows_protocol E s s' apply_ratio set_ratio \<longleftrightarrow>
     (let f = fetch_outcome E s in
      calls s' = calls f @ [Reset]
         @ (if 0 < max_process_size s then [SetMaxProcessSize (max_process_size s)] else [])
         @ [apply_ratio] \<and>
      stretcher s' =
         set_ratio
           (if 0 < max_process_size s
            then st_setMaxProcessSize E (st_reset E (stretcher f)) (max_process_size s)
            else st_reset E (stretcher f)) \<and>
      reset_count s' = Suc (reset_count s) \<and>
      output_buffer s' = output_buffer f \<and>
      scratch s' = scratch f \<and>
      channel_count s' = channel_count s \<and>
      max_process_size s' = max_process_size s \<and>
      start_pad_samples s' = st_getPreferredStartPad E (stretcher s') \<and>
      start_delay_samples s' = st_getStartDelay E (stretcher s'))"

text \<open>
  An engine that remembers its ratios: each getter returns what the matching setter was
  last given.
\<close>

definition remembers_ratios :: "('e, 's) RubberBandStretcher \<Rightarrow> bool" where
  "remembers_ratios E \<longleftrightarrow>
     (\<forall>e v. st_getTimeRatio E (st_setTimeRatio E e v) = v) \<and>
     (\<forall>e v. st_getPitchScale E (st_setPitchScale E e v) = v) \<and>
     (\<forall>e v. st_getFormantScale E (st_setFormantScale E e v) = v)"

section \<open>Properties\<close>

subsection \<open>The write loop\<close>

lemma write_loop_fields:
  "stretcher (write_loop a chs s) = stretcher s"
  "scratch (write_loop a chs s) = scratch s"
  "start_pad_samples (write_loop a chs s) = start_pad_samples s"
  "start_delay_samples (write_loop a chs s) = start_delay_samples s"
  "channel_count (write_loop a chs s) = channel_count s"
  "max_process_size (write_loop a chs s) = max_process_size s"
  "calls (write_loop a chs s) = calls s"
  "cerr (write_loop a chs s) = cerr s"
  "length (output_buffer (write_loop a chs s)) = length (output_buffer s)"
  by (induction chs arbitrary: s, simp_all)+

lemma write_loop_nth:
  "distinct chs \<Longrightarrow> c < length (output_buffer s) \<Longrightarrow>
   output_buffer (write_loop a chs s) ! c =
     (if c \<in> set chs then fst (rb_write (output_buffer s ! c) (scratch s c) a)
      else output_buffer s ! c)"
proof (induction chs arbitrary: s)
  case Nil
  show ?case by simp
next
  case (Cons d chs)
  let ?s = "s\<lparr>output_buffer := (output_buffer s)
            [d := fst (rb_write (output_buffer s ! d) (scratch s d) a)]\<rparr>"
  have len: "c < length (output_buffer ?s)" using Cons.prems by simp
  have dist: "distinct chs" and notin: "d \<notin> set chs" using Cons.prems by simp_all
  have "output_buffer (write_loop a (d # chs) s) ! c = output_buffer (write_loop a chs ?s) ! c"
    by simp
  also have "\<dots> = (if c \<in> set chs then fst (rb_write (output_buffer ?s ! c) (scratch ?s c) a)
      else output_buffer ?s ! c)"
    by (rule Cons.IH [OF dist len])
  also have "\<dots> = (if c \<in> set (d # chs) then fst (rb_write (output_buffer s ! c) (scratch s c) a)
      else output_buffer s ! c)"
    using notin Cons.prems(2) by (cases "c = d") auto
  finally show ?case .
qed

subsection \<open>Retrieving and fetching\<close>

lemma retrieve_fields:
  "output_buffer (snd (stretcher_retrieve E s n)) = output_buffer s"
  "start_pad_samples (snd (stretcher_retrieve E s n)) = start_pad_samples s"
  "start_delay_samples (snd (stretcher_retrieve E s n)) = start_delay_samples s"
  "channel_count (snd (stretcher_retrieve E s n)) = channel_count s"
  "max_process_size (snd (stretcher_retrieve E s n)) = max_process_size s"
  "cerr (snd (stretcher_retrieve E s n)) = cerr s"
  "calls (snd (stretcher_retrieve E s n)) = calls s @ [Retrieve n]"
  "fst (stretcher_retrieve E s n) = fst (st_retrieve E (stretcher s) (scratch s) n)"
  "scratch (snd (stretcher_retrieve E s n)) = fst (snd (st_retrieve E (stretcher s) (scratch s) n))"
  "stretcher (snd (stretcher_retrieve E s n)) = snd (snd (st_retrieve E (stretcher s) (scratch s) n))"
  by (simp_all add: stretcher_retrieve_def split: prod.splits)

lemma fetch_write_eq:
  "fetch_write E s n =
     write_loop (fst (st_retrieve E (stretcher s) (scratch s) n)) [0..<channel_count s]
       (snd (stretcher_retrieve E
          (if getWriteSpace (output_buffer s ! 0) \<le> n
           then s\<lparr>cerr := cerr s @ [''BUFFER OVERRUN'']\<rparr> else s) n))"
  by (simp add: fetch_write_def Let_def stretcher_retrieve_def split: prod.splits)

lemma fetch_write_fields:
  "start_pad_samples (fetch_write E s n) = start_pad_samples s"
  "start_delay_samples (fetch_write E s n) = start_delay_samples s"
  "channel_count (fetch_write E s n) = channel_count s"
  "max_process_size (fetch_write E s n) = max_process_size s"
  "calls (fetch_write E s n) = calls s @ [Retrieve n]"
  "length (output_buffer (fetch_write E s n)) = length (output_buffer s)"
  "cerr (fetch_write E s n) =
     (if getWriteSpace (output_buffer s ! 0) \<le> n then cerr s @ [''BUFFER OVERRUN''] else cerr s)"
  "stretcher (fetch_write E s n) = snd (snd (st_retrieve E (stretcher s) (scratch s) n))"
  "scratch (fetch_write E s n) = fst (snd (st_retrieve E (stretcher s) (scratch s) n))"
  by (simp_all add: fetch_write_eq write_loop_fields retrieve_fields)

lemma write_loop_upt:
  assumes "length (output_buffer s) = n"
  shows "output_buffer (write_loop a [0..<n] s) =
           map (\<lambda>c. fst (rb_write (output_buffer s ! c) (scratch s c) a)) [0..<n]"
  by (rule nth_equalityI) (simp_all add: write_loop_fields write_loop_nth assms)

lemma fetch_write_buffers:
  assumes "length (output_buffer s) = channel_count s"
  shows "output_buffer (fetch_write E s n) =
           map (\<lambda>c. fst (rb_write (output_buffer s ! c)
                  (fst (snd (st_retrieve E (stretcher s) (scratch s) n)) c)
                  (fst (st_retrieve E (stretcher s) (scratch s) n))))
             [0..<channel_count s]"
proof (cases "getWriteSpace (output_buffer s ! 0) \<le> n")
  case True
  let ?s2 = "snd (stretcher_retrieve E (s\<lparr>cerr := cerr s @ [''BUFFER OVERRUN'']\<rparr>) n)"
  have len: "length (output_buffer ?s2) = channel_count s"
    using assms by (simp add: retrieve_fields)
  show ?thesis
    using True write_loop_upt [OF len, of "fst (st_retrieve E (stretcher s) (scratch s) n)"]
    by (simp add: fetch_write_eq retrieve_fields)
next
  case False
  let ?s2 = "snd (stretcher_retrieve E s n)"
  have len: "length (output_buffer ?s2) = channel_count s"
    using assms by (simp add: retrieve_fields)
  show ?thesis
    using False write_loop_upt [OF len, of "fst (st_retrieve E (stretcher s) (scratch s) n)"]
    by (simp add: fetch_write_eq retrieve_fields)
qed

subsection \<open>The cases of \<^verbatim>\<open>fetchProcessed\<close>\<close>

lemma fetch_idle:
  "st_available E (stretcher s) \<le> 0 \<Longrightarrow> fetchProcessed E s = s"
  by (simp add: fetchProcessed_def)

lemma fetch_nodelay:
  "0 < st_available E (stretcher s) \<Longrightarrow> start_delay_samples s = 0 \<Longrightarrow>
   fetchProcessed E s = fetch_write E s (nat (st_available E (stretcher s)))"
  by (simp add: fetchProcessed_def)

lemma fetch_short:
  "0 < st_available E (stretcher s) \<Longrightarrow> nat (st_available E (stretcher s)) < start_delay_samples s \<Longrightarrow>
   fetchProcessed E s =
     (snd (stretcher_retrieve E s (nat (st_available E (stretcher s)))))
       \<lparr>start_delay_samples := start_delay_samples s - nat (st_available E (stretcher s))\<rparr>"
  by (simp add: fetchProcessed_def Let_def retrieve_fields)

lemma fetch_long:
  "0 < st_available E (stretcher s) \<Longrightarrow> 0 < start_delay_samples s \<Longrightarrow>
   start_delay_samples s \<le> nat (st_available E (stretcher s)) \<Longrightarrow>
   fetchProcessed E s =
     fetch_write E ((snd (stretcher_retrieve E s (start_delay_samples s)))\<lparr>start_delay_samples := 0\<rparr>)
       (nat (st_available E (stretcher s)) - start_delay_samples s)"
  by (simp add: fetchProcessed_def Let_def retrieve_fields)

lemma fetch_cases:
  obtains
    (idle) "st_available E (stretcher s) \<le> 0"
  | (nodelay) "0 < st_available E (stretcher s)" "start_delay_samples s = 0"
  | (short) "0 < st_available E (stretcher s)"
      "nat (st_available E (stretcher s)) < start_delay_samples s"
  | (long) "0 < st_available E (stretcher s)" "0 < start_delay_samples s"
      "start_delay_samples s \<le> nat (st_available E (stretcher s))"
  by linarith

lemma fetch_fields:
  "start_pad_samples (fetchProcessed E s) = start_pad_samples s"
  "channel_count (fetchProcessed E s) = channel_count s"
  "max_process_size (fetchProcessed E s) = max_process_size s"
  "length (output_buffer (fetchProcessed E s)) = length (output_buffer s)"
  by (cases E s rule: fetch_cases;
      simp add: fetch_idle fetch_nodelay fetch_short fetch_long fetch_write_fields retrieve_fields)+

lemma fetch_calls:
  "calls (fetchProcessed E s) = calls s @
     (if st_available E (stretcher s) \<le> 0 then []
      else if start_delay_samples s = 0 then [Retrieve (nat (st_available E (stretcher s)))]
      else if start_delay_samples s \<le> nat (st_available E (stretcher s))
        then [Retrieve (start_delay_samples s),
              Retrieve (nat (st_available E (stretcher s)) - start_delay_samples s)]
      else [Retrieve (nat (st_available E (stretcher s)))])"
  by (cases E s rule: fetch_cases;
      simp add: fetch_idle fetch_nodelay fetch_short fetch_long fetch_write_fields retrieve_fields)

lemma fetch_cerr:
  "cerr (fetchProcessed E s) =
     (if 0 < st_available E (stretcher s)
         \<and> start_delay_samples s \<le> nat (st_available E (stretcher s))
         \<and> getWriteSpace (output_buffer s ! 0)
              \<le> nat (st_available E (stretcher s)) - start_delay_samples s
      then cerr s @ [''BUFFER OVERRUN''] else cerr s)"
  by (cases E s rule: fetch_cases;
      simp add: fetch_idle fetch_nodelay fetch_short fetch_long fetch_write_fields retrieve_fields)

lemma fetch_start_delay:
  "start_delay_samples (fetchProcessed E s) =
     (if 0 < st_available E (stretcher s)
      then start_delay_samples s - nat (st_available E (stretcher s))
      else start_delay_samples s)"
  by (cases E s rule: fetch_cases;
      simp add: fetch_idle fetch_nodelay fetch_short fetch_long fetch_write_fields retrieve_fields)

subsection \<open>A fetch has the outcome written out\<close>

lemma write_loop_more: "kernel.more (write_loop a chs s) = kernel.more s"
  by (induction chs arbitrary: s) simp_all

lemma fetch_write_more: "kernel.more (fetch_write E s n) = kernel.more s"
  by (simp add: fetch_write_eq write_loop_more stretcher_retrieve_def case_prod_beta)

lemma fetch_write_record:
  assumes wf: "length (output_buffer s) = channel_count s"
  shows "fetch_write E s n =
     (case st_retrieve E (stretcher s) (scratch s) n of
        (actual, sc, e) \<Rightarrow>
          s\<lparr>stretcher := e, scratch := sc,
            output_buffer :=
              map (\<lambda>c. fst (rb_write (output_buffer s ! c) (sc c) actual)) [0..<channel_count s],
            calls := calls s @ [Retrieve n],
            cerr := cerr s @ (if getWriteSpace (output_buffer s ! 0) \<le> n
                              then [''BUFFER OVERRUN''] else [])\<rparr>)"
  by (rule kernel.equality)
     (simp_all add: fetch_write_fields fetch_write_buffers [OF wf] case_prod_beta
        fetch_write_more)

lemma fetch_is_outcome:
  assumes wf: "length (output_buffer s) = channel_count s"
  shows "(fetchProcessed E s)\<lparr>cerr := cerr s\<rparr> = fetch_outcome E s"
proof (cases E s rule: fetch_cases)
  case idle
  then show ?thesis by (simp add: fetch_idle fetch_outcome_def)
next
  case nodelay
  then show ?thesis
    unfolding fetch_nodelay [OF nodelay] fetch_write_record [OF wf]
    by (intro kernel.equality) (simp_all add: fetch_outcome_def Let_def case_prod_beta)
next
  case short
  then show ?thesis
    unfolding fetch_short [OF short]
    by (intro kernel.equality)
       (simp_all add: fetch_outcome_def Let_def stretcher_retrieve_def case_prod_beta)
next
  case long
  let ?s1 = "(snd (stretcher_retrieve E s (start_delay_samples s)))\<lparr>start_delay_samples := 0\<rparr>"
  have wf1: "length (output_buffer ?s1) = channel_count ?s1"
    using wf by (simp add: retrieve_fields)
  from long show ?thesis
    unfolding fetch_long [OF long] fetch_write_record [OF wf1]
    by (intro kernel.equality)
       (simp_all add: fetch_outcome_def Let_def stretcher_retrieve_def case_prod_beta)
qed

lemma fetch_outcome_fields:
  assumes wf: "length (output_buffer s) = channel_count s"
  shows "calls (fetchProcessed E s) = calls (fetch_outcome E s)"
    and "stretcher (fetchProcessed E s) = stretcher (fetch_outcome E s)"
    and "output_buffer (fetchProcessed E s) = output_buffer (fetch_outcome E s)"
    and "scratch (fetchProcessed E s) = scratch (fetch_outcome E s)"
  using arg_cong [OF fetch_is_outcome [OF wf, of E], of calls]
    arg_cong [OF fetch_is_outcome [OF wf, of E], of stretcher]
    arg_cong [OF fetch_is_outcome [OF wf, of E], of output_buffer]
    arg_cong [OF fetch_is_outcome [OF wf, of E], of scratch]
  by simp_all

subsection \<open>Evaluating the test sessions\<close>

lemmas demo_defs =
  demo_fixed_def demo_new_def RealtimeRubberBand_new_def loopback_engine_def
  setMaxProcessSize_def stretcher_setMaxProcessSize_def updateRatio_def RingBuffer_new_def

lemmas run_defs =
  push_def stretcher_process_def fetchProcessed_def fetch_write_def stretcher_retrieve_def
  lb_ready_def getWriteSpace_def getReadSpace_def rb_write_def rb_read_def Let_def

subsection \<open>The ratio setters\<close>

lemma double_ne_refl: "double_ne r r \<longleftrightarrow> r = NaN"
  by (cases r) simp_all

lemma fetch_reset_count: "reset_count (fetchProcessed E s) = reset_count s"
  by (simp add: reset_count_def fetch_calls)

lemma drain_and_reset_fields:
  "calls (drain_and_reset E s) = calls (fetchProcessed E s) @ [Reset]
        @ (if 0 < max_process_size s then [SetMaxProcessSize (max_process_size s)] else [])"
  "output_buffer (drain_and_reset E s) = output_buffer (fetchProcessed E s)"
  "cerr (drain_and_reset E s) = cerr (fetchProcessed E s)"
  "max_process_size (drain_and_reset E s) = max_process_size s"
  "channel_count (drain_and_reset E s) = channel_count s"
  "stretcher (drain_and_reset E s) =
     (if 0 < max_process_size s
      then st_setMaxProcessSize E (st_reset E (stretcher (fetchProcessed E s))) (max_process_size s)
      else st_reset E (stretcher (fetchProcessed E s)))"
  "scratch (drain_and_reset E s) = scratch (fetchProcessed E s)"
  by (simp_all add: drain_and_reset_def Let_def stretcher_reset_def stretcher_setMaxProcessSize_def
        fetch_fields)

lemma drain_and_reset_count: "reset_count (drain_and_reset E s) = Suc (reset_count s)"
  using fetch_reset_count [of E s]
  by (simp add: reset_count_def drain_and_reset_fields)

lemma protocol_setTimeRatio:
  assumes wf: "length (output_buffer s) = channel_count s"
  shows "follows_protocol E s (updateRatio E (stretcher_setTimeRatio E (drain_and_reset E s) r))
     (SetTimeRatio r) (\<lambda>e. st_setTimeRatio E e r)"
  using drain_and_reset_count [of E s]
  by (simp add: follows_protocol_def Let_def updateRatio_def stretcher_setTimeRatio_def
        drain_and_reset_fields reset_count_def fetch_outcome_fields [OF wf, symmetric])

lemma protocol_setPitchScale:
  assumes wf: "length (output_buffer s) = channel_count s"
  shows "follows_protocol E s (updateRatio E (stretcher_setPitchScale E (drain_and_reset E s) r))
     (SetPitchScale r) (\<lambda>e. st_setPitchScale E e r)"
  using drain_and_reset_count [of E s]
  by (simp add: follows_protocol_def Let_def updateRatio_def stretcher_setPitchScale_def
        drain_and_reset_fields reset_count_def fetch_outcome_fields [OF wf, symmetric])

lemma protocol_setFormantScale:
  assumes wf: "length (output_buffer s) = channel_count s"
  shows "follows_protocol E s (updateRatio E (stretcher_setFormantScale E (drain_and_reset E s) r))
     (SetFormantScale r) (\<lambda>e. st_setFormantScale E e r)"
  using drain_and_reset_count [of E s]
  by (simp add: follows_protocol_def Let_def updateRatio_def stretcher_setFormantScale_def
        drain_and_reset_fields reset_count_def fetch_outcome_fields [OF wf, symmetric])

lemma loopback_remembers: "remembers_ratios (loopback_engine d)"
  by (simp add: remembers_ratios_def loopback_engine_def)

lemma setTempo_twice:
  assumes pos: "\<not> double_le_zero r" and nn: "r \<noteq> NaN"
    and law: "\<And>e v. st_getTimeRatio E (st_setTimeRatio E e v) = v"
    and one: "setTempo E s r = Inr s1" and two: "setTempo E s1 r = Inr s2"
  shows "s2 = s1 \<and> reset_count s2 \<le> Suc (reset_count s)"
proof (cases "double_ne (st_getTimeRatio E (stretcher s)) r")
  case True
  with pos one have s1: "s1 = updateRatio E (stretcher_setTimeRatio E (drain_and_reset E s) r)"
    by (simp add: setTempo_def)
  then have "st_getTimeRatio E (stretcher s1) = r"
    by (simp add: updateRatio_def stretcher_setTimeRatio_def law)
  with pos nn two have "s2 = s1"
    by (simp add: setTempo_def double_ne_refl)
  moreover have "reset_count s1 = Suc (reset_count s)"
    using drain_and_reset_count [of E s] s1
    by (simp add: reset_count_def updateRatio_def stretcher_setTimeRatio_def)
  ultimately show ?thesis by simp
next
  case False
  with pos one have "s1 = s" by (simp add: setTempo_def)
  with False pos two show ?thesis by (simp add: setTempo_def)
qed

lemma setPitch_twice:
  assumes pos: "\<not> double_le_zero r" and nn: "r \<noteq> NaN"
    and law: "\<And>e v. st_getPitchScale E (st_setPitchScale E e v) = v"
    and one: "setPitch E s r = Inr s1" and two: "setPitch E s1 r = Inr s2"
  shows "s2 = s1 \<and> reset_count s2 \<le> Suc (reset_count s)"
proof (cases "double_ne (st_getPitchScale E (stretcher s)) r")
  case True
  with pos one have s1: "s1 = updateRatio E (stretcher_setPitchScale E (drain_and_reset E s) r)"
    by (simp add: setPitch_def)
  then have "st_getPitchScale E (stretcher s1) = r"
    by (simp add: updateRatio_def stretcher_setPitchScale_def law)
  with pos nn two have "s2 = s1"
    by (simp add: setPitch_def double_ne_refl)
  moreover have "reset_count s1 = Suc (reset_count s)"
    using drain_and_reset_count [of E s] s1
    by (simp add: reset_count_def updateRatio_def stretcher_setPitchScale_def)
  ultimately show ?thesis by simp
next
  case False
  with pos one have "s1 = s" by (simp add: setPitch_def)
  with False pos two show ?thesis by (simp add: setPitch_def)
qed

lemma setFormantScale_twice:
  assumes pos: "\<not> double_le_zero r" and nn: "r \<noteq> NaN"
    and law: "\<And>e v. st_getFormantScale E (st_setFormantScale E e v) = v"
    and one: "setFormantScale E s r = Inr s1" and two: "setFormantScale E s1 r = Inr s2"
  shows "s2 = s1 \<and> reset_count s2 \<le> Suc (reset_count s)"
proof (cases "double_ne (st_getFormantScale E (stretcher s)) r")
  case True
  with pos one have s1: "s1 = updateRatio E (stretcher_setFormantScale E (drain_and_reset E s) r)"
    by (simp add: setFormantScale_def)
  then have "st_getFormantScale E (stretcher s1) = r"
    by (simp add: updateRatio_def stretcher_setFormantScale_def law)
  with pos nn two have "s2 = s1"
    by (simp add: setFormantScale_def double_ne_refl)
  moreover have "reset_count s1 = Suc (reset_count s)"
    using drain_and_reset_count [of E s] s1
    by (simp add: reset_count_def updateRatio_def stretcher_setFormantScale_def)
  ultimately show ?thesis by simp
next
  case False
  with pos one have "s1 = s" by (simp add: setFormantScale_def)
  with False pos two show ?thesis by (simp add: setFormantScale_def)
qed

lemmas setter_defs =
  setTempo_def setPitch_def setFormantScale_def drain_and_reset_def stretcher_reset_def
  stretcher_setTimeRatio_def stretcher_setPitchScale_def stretcher_setFormantScale_def

subsection \<open>Ring buffer writes; the test engine\<close>

lemma rb_write_data:
  "rb_data (fst (rb_write rb src n)) = rb_data rb @ map src [0..<min n (getWriteSpace rb)]"
  by (simp add: rb_write_def Let_def)



subsection \<open>Sample-aligned channels\<close>

lemma aligned_cong:
  "channel_count s' = channel_count s \<Longrightarrow> output_buffer s' = output_buffer s
     \<Longrightarrow> aligned s' = aligned s"
  by (simp add: aligned_def)

lemma alignedD:
  assumes "aligned s"
  shows "0 < channel_count s" and "length (output_buffer s) = channel_count s"
  using assms unfolding aligned_def by blast+

lemma aligned_nth:
  assumes al: "aligned s" and c: "c < channel_count s"
  shows "rb_size (output_buffer s ! c) = rb_size (output_buffer s ! 0)"
    and "getReadSpace (output_buffer s ! c) = getReadSpace (output_buffer s ! 0)"
    and "getWriteSpace (output_buffer s ! c) = getWriteSpace (output_buffer s ! 0)"
proof -
  have "output_buffer s ! c \<in> set (output_buffer s)"
    using c alignedD(2) [OF al] by simp
  with al show a: "rb_size (output_buffer s ! c) = rb_size (output_buffer s ! 0)"
    and b: "getReadSpace (output_buffer s ! c) = getReadSpace (output_buffer s ! 0)"
    unfolding aligned_def by blast+
  show "getWriteSpace (output_buffer s ! c) = getWriteSpace (output_buffer s ! 0)"
    using a b unfolding getWriteSpace_def getReadSpace_def by presburger
qed

lemma alignedI:
  assumes "0 < channel_count s" "length (output_buffer s) = channel_count s"
    and "\<And>c. c < channel_count s \<Longrightarrow>
      rb_size (output_buffer s ! c) = rb_size (output_buffer s ! 0)
      \<and> getReadSpace (output_buffer s ! c) = getReadSpace (output_buffer s ! 0)"
  shows "aligned s"
  unfolding aligned_def
proof (intro conjI ballI)
  show "0 < channel_count s" by (rule assms(1))
  show "length (output_buffer s) = channel_count s" by (rule assms(2))
next
  fix rb assume "rb \<in> set (output_buffer s)"
  then obtain c where c: "c < length (output_buffer s)" and rb: "rb = output_buffer s ! c"
    unfolding in_set_conv_nth by blast
  from c assms(2) have "c < channel_count s" by simp
  from assms(3) [OF this]
  show "rb_size rb = rb_size (output_buffer s ! 0)"
    and "getReadSpace rb = getReadSpace (output_buffer s ! 0)"
    unfolding rb by blast+
qed

lemma aligned_new:
  assumes "RealtimeRubberBand_new E kB kR m sampleRate n hq = Inr s"
  shows "aligned s"
proof (rule alignedI)
  from assms have n: "0 < n" and s: "channel_count s = n"
    "output_buffer s = replicate n (RingBuffer_new (kB + kR + 8192))"
    by (auto simp: RealtimeRubberBand_new_def Let_def updateRatio_def split: if_splits)
  show "0 < channel_count s" using n s by simp
  show "length (output_buffer s) = channel_count s" using s by simp
  fix c assume "c < channel_count s"
  then show "rb_size (output_buffer s ! c) = rb_size (output_buffer s ! 0)
      \<and> getReadSpace (output_buffer s ! c) = getReadSpace (output_buffer s ! 0)"
    using n s by simp
qed

lemma aligned_fetch_write:
  assumes al: "aligned s"
  shows "aligned (fetch_write E s n)"
proof (rule alignedI)
  note wf = alignedD(2) [OF al] and pos = alignedD(1) [OF al]
  show "0 < channel_count (fetch_write E s n)" using pos by (simp add: fetch_write_fields)
  show "length (output_buffer (fetch_write E s n)) = channel_count (fetch_write E s n)"
    using wf by (simp add: fetch_write_fields)
  fix c assume "c < channel_count (fetch_write E s n)"
  then have c: "c < channel_count s" by (simp add: fetch_write_fields)
  have eq: "rb_size (output_buffer s ! c) = rb_size (output_buffer s ! 0)"
    "length (rb_data (output_buffer s ! c)) = length (rb_data (output_buffer s ! 0))"
    "getWriteSpace (output_buffer s ! c) = getWriteSpace (output_buffer s ! 0)"
    using aligned_nth [OF al c] by (simp_all add: getReadSpace_def)
  show "rb_size (output_buffer (fetch_write E s n) ! c) = rb_size (output_buffer (fetch_write E s n) ! 0)
      \<and> getReadSpace (output_buffer (fetch_write E s n) ! c) = getReadSpace (output_buffer (fetch_write E s n) ! 0)"
    using c pos by (simp add: fetch_write_buffers [OF wf] rb_write_def Let_def getReadSpace_def eq)
qed

lemma aligned_fetch:
  assumes al: "aligned s"
  shows "aligned (fetchProcessed E s)"
proof (cases E s rule: fetch_cases)
  case idle
  show ?thesis unfolding fetch_idle [OF idle] by (rule al)
next
  case nodelay
  show ?thesis unfolding fetch_nodelay [OF nodelay] by (rule aligned_fetch_write [OF al])
next
  case short
  have "aligned (fetchProcessed E s) = aligned s"
    by (rule aligned_cong) (simp_all add: fetch_short [OF short] retrieve_fields)
  with al show ?thesis by blast
next
  case long
  let ?s1 = "(snd (stretcher_retrieve E s (start_delay_samples s)))\<lparr>start_delay_samples := 0\<rparr>"
  have "aligned ?s1 = aligned s"
    by (rule aligned_cong) (simp_all add: retrieve_fields)
  with al have "aligned ?s1" by blast
  then show ?thesis
    unfolding fetch_long [OF long] by (rule aligned_fetch_write)
qed

lemma aligned_drain_and_reset:
  assumes "aligned s"
  shows "aligned (drain_and_reset E s)"
proof -
  have "aligned (drain_and_reset E s) = aligned (fetchProcessed E s)"
    by (rule aligned_cong) (simp_all add: drain_and_reset_fields fetch_fields)
  with aligned_fetch [OF assms, of E] show ?thesis by blast
qed

lemma aligned_setTempo:
  assumes al: "aligned s" and r: "setTempo E s r = Inr s'"
  shows "aligned s'"
proof (cases "double_ne (st_getTimeRatio E (stretcher s)) r")
  case True
  with r have s': "s' = updateRatio E (stretcher_setTimeRatio E (drain_and_reset E s) r)"
    by (simp add: setTempo_def split: if_splits)
  have "aligned s' = aligned (drain_and_reset E s)"
    by (rule aligned_cong) (simp_all add: s' updateRatio_def stretcher_setTimeRatio_def)
  with aligned_drain_and_reset [OF al, of E] show ?thesis by blast
next
  case False
  with r have "s' = s" by (simp add: setTempo_def split: if_splits)
  with al show ?thesis by blast
qed

lemma aligned_setPitch:
  assumes al: "aligned s" and r: "setPitch E s r = Inr s'"
  shows "aligned s'"
proof (cases "double_ne (st_getPitchScale E (stretcher s)) r")
  case True
  with r have s': "s' = updateRatio E (stretcher_setPitchScale E (drain_and_reset E s) r)"
    by (simp add: setPitch_def split: if_splits)
  have "aligned s' = aligned (drain_and_reset E s)"
    by (rule aligned_cong) (simp_all add: s' updateRatio_def stretcher_setPitchScale_def)
  with aligned_drain_and_reset [OF al, of E] show ?thesis by blast
next
  case False
  with r have "s' = s" by (simp add: setPitch_def split: if_splits)
  with al show ?thesis by blast
qed

lemma aligned_setFormantScale:
  assumes al: "aligned s" and r: "setFormantScale E s r = Inr s'"
  shows "aligned s'"
proof (cases "double_ne (st_getFormantScale E (stretcher s)) r")
  case True
  with r have s': "s' = updateRatio E (stretcher_setFormantScale E (drain_and_reset E s) r)"
    by (simp add: setFormantScale_def split: if_splits)
  have "aligned s' = aligned (drain_and_reset E s)"
    by (rule aligned_cong) (simp_all add: s' updateRatio_def stretcher_setFormantScale_def)
  with aligned_drain_and_reset [OF al, of E] show ?thesis by blast
next
  case False
  with r have "s' = s" by (simp add: setFormantScale_def split: if_splits)
  with al show ?thesis by blast
qed

lemma aligned_setMaxProcessSize:
  assumes "aligned s"
  shows "aligned (setMaxProcessSize E s n)"
proof -
  have "aligned (setMaxProcessSize E s n) = aligned s"
    by (rule aligned_cong) (simp_all add: setMaxProcessSize_def stretcher_setMaxProcessSize_def)
  with assms show ?thesis by blast
qed

lemma aligned_push:
  assumes al: "aligned s" and p: "push E s input n = Inr s'"
  shows "aligned s'"
proof -
  let ?rows = "map (\<lambda>channel. map (\<lambda>i. input (channel * n + i)) [0..<n]) [0..<channel_count s]"
  have "aligned (stretcher_process E s ?rows n False) = aligned s"
    by (rule aligned_cong) (simp_all add: stretcher_process_def)
  with al have "aligned (stretcher_process E s ?rows n False)" by blast
  from aligned_fetch [OF this, of E] p show ?thesis
    by (simp add: push_def Let_def)
qed

subsection \<open>The pull loop\<close>

lemma pull_loop_fields:
  "stretcher (fst (pull_loop n chs (s, out))) = stretcher s"
  "scratch (fst (pull_loop n chs (s, out))) = scratch s"
  "start_pad_samples (fst (pull_loop n chs (s, out))) = start_pad_samples s"
  "start_delay_samples (fst (pull_loop n chs (s, out))) = start_delay_samples s"
  "channel_count (fst (pull_loop n chs (s, out))) = channel_count s"
  "max_process_size (fst (pull_loop n chs (s, out))) = max_process_size s"
  "calls (fst (pull_loop n chs (s, out))) = calls s"
  "length (output_buffer (fst (pull_loop n chs (s, out)))) = length (output_buffer s)"
  by (induction chs arbitrary: s out, simp_all add: Let_def split: prod.splits)+

lemma pull_loop_underrun:
  "getReadSpace (output_buffer s ! c) = 0 \<Longrightarrow>
   pull_loop n (c # chs) (s, out) = (s\<lparr>cerr := cerr s @ [''BUFFER UNDERRUN'']\<rparr>, out)"
  by simp

lemma region_div_mod:
  fixes a c n k :: nat
  assumes "k \<le> n"
  shows "(c * n \<le> a \<and> a < c * n + k) \<longleftrightarrow> (a div n = c \<and> a mod n < k)"
proof (cases "n = 0")
  case True
  with assms show ?thesis by simp
next
  case False
  show ?thesis
  proof
    assume h: "c * n \<le> a \<and> a < c * n + k"
    then obtain i where i: "a = c * n + i" "i < k"
      by (metis le_Suc_ex nat_add_left_cancel_less)
    with assms False show "a div n = c \<and> a mod n < k" by simp
  next
    assume h: "a div n = c \<and> a mod n < k"
    have "a = (a div n) * n + a mod n" by simp
    with h show "c * n \<le> a \<and> a < c * n + k"
      by (metis le_add1 nat_add_left_cancel_less)
  qed
qed

lemma rb_read_fst: "fst (rb_read rb n) = take (min n (getReadSpace rb)) (rb_data rb)"
  and rb_read_snd: "snd (rb_read rb n) = rb\<lparr>rb_data := drop (min n (getReadSpace rb)) (rb_data rb)\<rparr>"
  by (simp_all add: rb_read_def Let_def)

lemma store_apply:
  "store m off xs a = (if off \<le> a \<and> a < off + length xs then xs ! (a - off) else m a)"
  by (simp add: store_def)

lemma pull_loop_run:
  "distinct chs \<Longrightarrow>
   (\<forall>c \<in> set chs. c < length (output_buffer s) \<and> 0 < getReadSpace (output_buffer s ! c)) \<Longrightarrow>
   cerr (fst (pull_loop n chs (s, out))) = cerr s
   \<and> (\<forall>c < length (output_buffer s).
          output_buffer (fst (pull_loop n chs (s, out))) ! c =
            (if c \<in> set chs
             then snd (rb_read (output_buffer s ! c) (min (getReadSpace (output_buffer s ! c)) n))
             else output_buffer s ! c))
   \<and> (\<forall>a. snd (pull_loop n chs (s, out)) a =
          (if a div n \<in> set chs \<and> a mod n < min (getReadSpace (output_buffer s ! (a div n))) n
           then rb_data (output_buffer s ! (a div n)) ! (a mod n)
           else out a))"
proof (induction chs arbitrary: s out)
  case Nil
  show ?case by simp
next
  case (Cons d chs)
  let ?m = "min (getReadSpace (output_buffer s ! d)) n"
  let ?xs = "fst (rb_read (output_buffer s ! d) ?m)"
  let ?s1 = "s\<lparr>output_buffer := (output_buffer s)[d := snd (rb_read (output_buffer s ! d) ?m)]\<rparr>"
  let ?out1 = "store out (d * n) ?xs"
  have d: "d < length (output_buffer s)" "0 < getReadSpace (output_buffer s ! d)"
    and notin: "d \<notin> set chs" and dist: "distinct chs"
    using Cons.prems by simp_all
  have step: "pull_loop n (d # chs) (s, out) = pull_loop n chs (?s1, ?out1)"
    using d by (simp add: Let_def split: prod.splits)
  have pre: "\<forall>c \<in> set chs. c < length (output_buffer ?s1) \<and> 0 < getReadSpace (output_buffer ?s1 ! c)"
    using Cons.prems(2) notin by (auto simp: nth_list_update)
  note IH = Cons.IH [OF dist pre, of ?out1]
  have other: "output_buffer ?s1 ! c = output_buffer s ! c" if "c \<in> set chs" for c
  proof -
    from that notin have "c \<noteq> d" by blast
    then show ?thesis by simp
  qed
  have g1: "cerr (fst (pull_loop n (d # chs) (s, out))) = cerr s"
    unfolding step using IH by simp
  have g2: "output_buffer (fst (pull_loop n (d # chs) (s, out))) ! c =
            (if c \<in> set (d # chs)
             then snd (rb_read (output_buffer s ! c) (min (getReadSpace (output_buffer s ! c)) n))
             else output_buffer s ! c)" if c: "c < length (output_buffer s)" for c
  proof -
    from IH c have "output_buffer (fst (pull_loop n chs (?s1, ?out1))) ! c =
            (if c \<in> set chs
             then snd (rb_read (output_buffer ?s1 ! c) (min (getReadSpace (output_buffer ?s1 ! c)) n))
             else output_buffer ?s1 ! c)"
      by simp
    then show ?thesis
      unfolding step using notin c by (cases "c = d") (auto simp: nth_list_update)
  qed
  have g3: "snd (pull_loop n (d # chs) (s, out)) a =
          (if a div n \<in> set (d # chs) \<and> a mod n < min (getReadSpace (output_buffer s ! (a div n))) n
           then rb_data (output_buffer s ! (a div n)) ! (a mod n)
           else out a)" for a
  proof -
    have len: "length ?xs = ?m"
      by (simp add: rb_read_fst getReadSpace_def)
    have reg: "(d * n \<le> a \<and> a < d * n + ?m) \<longleftrightarrow> (a div n = d \<and> a mod n < ?m)"
      by (rule region_div_mod) simp
    have st: "?out1 a = (if d * n \<le> a \<and> a < d * n + ?m then ?xs ! (a - d * n) else out a)"
      by (simp only: store_apply len)
    have out1: "?out1 a = (if a div n = d \<and> a mod n < ?m
        then rb_data (output_buffer s ! d) ! (a mod n) else out a)"
    proof (cases "a div n = d \<and> a mod n < ?m")
      case True
      then have in_reg: "d * n \<le> a \<and> a < d * n + ?m" using reg by blast
      have "a = (a div n) * n + a mod n" by simp
      with True have off: "a - d * n = a mod n" by (metis add_diff_cancel_left')
      have "?xs ! (a mod n) = rb_data (output_buffer s ! d) ! (a mod n)"
        using True by (simp add: rb_read_fst getReadSpace_def)
      then show ?thesis
        using in_reg True off by (simp add: st del: min_less_iff_conj)
    next
      case False
      then have "\<not> (d * n \<le> a \<and> a < d * n + ?m)" using reg by blast
      then show ?thesis
        by (simp only: st False if_False)
    qed
    from IH have "snd (pull_loop n chs (?s1, ?out1)) a =
          (if a div n \<in> set chs \<and> a mod n < min (getReadSpace (output_buffer ?s1 ! (a div n))) n
           then rb_data (output_buffer ?s1 ! (a div n)) ! (a mod n)
           else ?out1 a)"
      by blast
    then show ?thesis
      unfolding step out1 using notin other by auto
  qed
  from g1 g2 g3 show ?case by blast
qed

subsection \<open>Pulling from aligned channels; reachable sessions\<close>

lemma pull_empty:
  assumes al: "aligned s" and empty: "getReadSpace (output_buffer s ! 0) = 0"
  shows "pull s out n = (s\<lparr>cerr := cerr s @ [''BUFFER UNDERRUN'']\<rparr>, out)"
proof -
  from alignedD(1) [OF al] have "[0..<channel_count s] = 0 # [1..<channel_count s]"
    by (simp add: upt_conv_Cons)
  then show ?thesis
    unfolding pull_def using empty by (simp only: pull_loop_underrun)
qed

lemma aligned_all_filled:
  assumes al: "aligned s" and filled: "0 < getReadSpace (output_buffer s ! 0)"
  shows "\<forall>c \<in> set [0..<channel_count s].
        c < length (output_buffer s) \<and> 0 < getReadSpace (output_buffer s ! c)"
proof
  fix c assume "c \<in> set [0..<channel_count s]"
  then have c: "c < channel_count s" by simp
  from aligned_nth(2) [OF al c] filled c alignedD(2) [OF al]
  show "c < length (output_buffer s) \<and> 0 < getReadSpace (output_buffer s ! c)"
    by simp
qed

lemma pull_aligned:
  assumes al: "aligned s"
  shows "cerr (fst (pull s out n)) =
           (if getReadSpace (output_buffer s ! 0) = 0 then cerr s @ [''BUFFER UNDERRUN'']
            else cerr s)"
    and "length (output_buffer (fst (pull s out n))) = channel_count s"
    and "\<And>c. c < channel_count s \<Longrightarrow>
           output_buffer (fst (pull s out n)) ! c =
             (output_buffer s ! c)\<lparr>rb_data :=
                drop (min (getReadSpace (output_buffer s ! 0)) n) (rb_data (output_buffer s ! c))\<rparr>"
    and "\<And>a. snd (pull s out n) a =
           (if a div n < channel_count s \<and> a mod n < min (getReadSpace (output_buffer s ! 0)) n
            then rb_data (output_buffer s ! (a div n)) ! (a mod n)
            else out a)"
proof -
  note wf = alignedD(2) [OF al]
  show "length (output_buffer (fst (pull s out n))) = channel_count s"
    by (simp add: pull_def pull_loop_fields wf)
  show "cerr (fst (pull s out n)) =
           (if getReadSpace (output_buffer s ! 0) = 0 then cerr s @ [''BUFFER UNDERRUN'']
            else cerr s)"
  proof (cases "getReadSpace (output_buffer s ! 0) = 0")
    case True
    then show ?thesis by (simp add: pull_empty [OF al True])
  next
    case False
    from False have pre: "\<forall>c \<in> set [0..<channel_count s].
        c < length (output_buffer s) \<and> 0 < getReadSpace (output_buffer s ! c)"
      by (simp add: aligned_all_filled [OF al])
    from pull_loop_run [OF distinct_upt pre, of n out] False show ?thesis
      by (simp add: pull_def)
  qed
  show "output_buffer (fst (pull s out n)) ! c =
             (output_buffer s ! c)\<lparr>rb_data :=
                drop (min (getReadSpace (output_buffer s ! 0)) n) (rb_data (output_buffer s ! c))\<rparr>"
    if c: "c < channel_count s" for c
  proof (cases "getReadSpace (output_buffer s ! 0) = 0")
    case True
    then show ?thesis by (simp add: pull_empty [OF al True])
  next
    case False
    from False have pre: "\<forall>c \<in> set [0..<channel_count s].
        c < length (output_buffer s) \<and> 0 < getReadSpace (output_buffer s ! c)"
      by (simp add: aligned_all_filled [OF al])
    from pull_loop_run [OF distinct_upt pre, of n out] c wf
    have "output_buffer (fst (pull s out n)) ! c =
        snd (rb_read (output_buffer s ! c) (min (getReadSpace (output_buffer s ! c)) n))"
      by (simp add: pull_def)
    then show ?thesis
      by (simp add: rb_read_snd aligned_nth(2) [OF al c])
  qed
  show "snd (pull s out n) a =
           (if a div n < channel_count s \<and> a mod n < min (getReadSpace (output_buffer s ! 0)) n
            then rb_data (output_buffer s ! (a div n)) ! (a mod n)
            else out a)" for a
  proof (cases "getReadSpace (output_buffer s ! 0) = 0")
    case True
    then show ?thesis by (simp add: pull_empty [OF al True])
  next
    case False
    from False have pre: "\<forall>c \<in> set [0..<channel_count s].
        c < length (output_buffer s) \<and> 0 < getReadSpace (output_buffer s ! c)"
      by (simp add: aligned_all_filled [OF al])
    from pull_loop_run [OF distinct_upt pre, of n out]
    have "snd (pull s out n) a =
        (if a div n < channel_count s
            \<and> a mod n < min (getReadSpace (output_buffer s ! (a div n))) n
         then rb_data (output_buffer s ! (a div n)) ! (a mod n) else out a)"
      by (simp add: pull_def)
    then show ?thesis
      using aligned_nth(2) [OF al, of "a div n"] by (cases "a div n < channel_count s") simp_all
  qed
qed

lemma aligned_pull:
  assumes al: "aligned s"
  shows "aligned (fst (pull s out n))"
proof (rule alignedI)
  have cc: "channel_count (fst (pull s out n)) = channel_count s"
    by (simp add: pull_def pull_loop_fields)
  note pos = alignedD(1) [OF al]
  show "0 < channel_count (fst (pull s out n))" using pos cc by simp
  show "length (output_buffer (fst (pull s out n))) = channel_count (fst (pull s out n))"
    using pull_aligned(2) [OF al] cc by simp
  fix c assume "c < channel_count (fst (pull s out n))"
  then have c: "c < channel_count s" using cc by simp
  have eq: "rb_size (output_buffer s ! c) = rb_size (output_buffer s ! 0)"
    "length (rb_data (output_buffer s ! c)) = length (rb_data (output_buffer s ! 0))"
    using aligned_nth [OF al c] by (simp_all add: getReadSpace_def)
  show "rb_size (output_buffer (fst (pull s out n)) ! c) = rb_size (output_buffer (fst (pull s out n)) ! 0)
      \<and> getReadSpace (output_buffer (fst (pull s out n)) ! c)
          = getReadSpace (output_buffer (fst (pull s out n)) ! 0)"
    by (simp add: pull_aligned(3) [OF al c] pull_aligned(3) [OF al pos] getReadSpace_def eq)
qed

lemma reachable_aligned:
  "reachable E kB kR s \<Longrightarrow> aligned s"
proof (induction rule: reachable.induct)
  case (reach_new mem sampleRate n high_quality s)
  then show ?case by (rule aligned_new)
next
  case (reach_setTempo s r s')
  then show ?case by (blast intro: aligned_setTempo)
next
  case (reach_setPitch s r s')
  then show ?case by (blast intro: aligned_setPitch)
next
  case (reach_setFormantScale s r s')
  then show ?case by (blast intro: aligned_setFormantScale)
next
  case (reach_setMaxProcessSize s n)
  then show ?case by (blast intro: aligned_setMaxProcessSize)
next
  case (reach_push s input sample_size s')
  then show ?case by (blast intro: aligned_push)
next
  case (reach_pull s out sample_size)
  then show ?case by (blast intro: aligned_pull)
qed

lemma fetch_write_appends:
  assumes al: "aligned s" and c: "c < channel_count s"
  shows "rb_data (output_buffer (fetch_write E s n) ! c) =
     rb_data (output_buffer s ! c) @ map (scratch (fetch_write E s n) c)
       [0..<min (fst (st_retrieve E (stretcher s) (scratch s) n))
              (getWriteSpace (output_buffer s ! 0))]"
  using c by (simp add: fetch_write_buffers [OF alignedD(2) [OF al]] fetch_write_fields
        rb_write_data aligned_nth(3) [OF al c])

lemma fetch_appends:
  assumes al: "aligned s"
  shows "\<exists>k. \<forall>c < channel_count s.
     rb_data (output_buffer (fetchProcessed E s) ! c) =
       rb_data (output_buffer s ! c) @ map (scratch (fetchProcessed E s) c) [0..<k]"
proof (cases E s rule: fetch_cases)
  case idle
  have "\<forall>c < channel_count s.
     rb_data (output_buffer (fetchProcessed E s) ! c) =
       rb_data (output_buffer s ! c) @ map (scratch (fetchProcessed E s) c) [0..<0]"
    by (simp add: fetch_idle [OF idle])
  then show ?thesis ..
next
  case nodelay
  show ?thesis
    unfolding fetch_nodelay [OF nodelay] using fetch_write_appends [OF al] by blast
next
  case short
  have "\<forall>c < channel_count s.
     rb_data (output_buffer (fetchProcessed E s) ! c) =
       rb_data (output_buffer s ! c) @ map (scratch (fetchProcessed E s) c) [0..<0]"
    by (simp add: fetch_short [OF short] retrieve_fields)
  then show ?thesis ..
next
  case long
  let ?s1 = "(snd (stretcher_retrieve E s (start_delay_samples s)))\<lparr>start_delay_samples := 0\<rparr>"
  have "aligned ?s1 = aligned s"
    by (rule aligned_cong) (simp_all add: retrieve_fields)
  with al have al1: "aligned ?s1" by blast
  have same: "channel_count ?s1 = channel_count s" "output_buffer ?s1 = output_buffer s"
    by (simp_all add: retrieve_fields)
  from fetch_write_appends [OF al1, of _ E] show ?thesis
    unfolding fetch_long [OF long] same by blast
qed

subsection \<open>The test sessions are reachable\<close>

lemma demo_new_ok:
  "RealtimeRubberBand_new (loopback_engine d) 1024 8192 (\<lambda>c i. 0) 48000 2 False = Inr (demo_new d)"
  by (simp add: demo_new_def RealtimeRubberBand_new_def)

lemma push_ok: "push E s input n = Inr (projr (push E s input n))"
  by (simp add: push_def Let_def)

subsection \<open>The copy loop of the wrapper\<close>

lemma typed_array_set_fits:
  "length source \<le> length target \<Longrightarrow>
     typed_array_set target source = Inr (source @ drop (length source) target)"
  by (simp add: typed_array_set_def)

lemma copy_loop_run:
  "distinct chs \<Longrightarrow>
   (\<forall>c \<in> set chs. c < length channels
       \<and> (\<exists>v. getChannelArray h c = Some v \<and> m \<le> length v) \<and> m \<le> length (channels ! c)) \<Longrightarrow>
   \<exists>channels'. copy_loop h m chs channels = Inr channels'
     \<and> length channels' = length channels
     \<and> (\<forall>c < length channels. channels' ! c =
           (if c \<in> set chs then take m (the (getChannelArray h c)) @ drop m (channels ! c)
            else channels ! c))"
proof (induction chs arbitrary: channels)
  case Nil
  show ?case by simp
next
  case (Cons d chs)
  from Cons.prems obtain v where d: "d < length channels" "m \<le> length (channels ! d)"
    and v: "getChannelArray h d = Some v" "m \<le> length v"
    and notin: "d \<notin> set chs" and dist: "distinct chs"
    by auto
  let ?filled = "take m v @ drop m (channels ! d)"
  let ?ch1 = "channels[d := ?filled]"
  have set: "typed_array_set (channels ! d) (take m v) = Inr ?filled"
    using typed_array_set_fits [of "take m v" "channels ! d"] d v by simp
  have step: "copy_loop h m (d # chs) channels = copy_loop h m chs ?ch1"
    by (simp add: v set)
  have other: "?ch1 ! c = channels ! c" if "c \<in> set chs" for c
  proof -
    from that notin have "c \<noteq> d" by blast
    then show ?thesis by simp
  qed
  have pre: "\<forall>c \<in> set chs. c < length ?ch1
       \<and> (\<exists>v. getChannelArray h c = Some v \<and> m \<le> length v) \<and> m \<le> length (?ch1 ! c)"
    using Cons.prems(2) other by simp
  from Cons.IH [OF dist pre] obtain channels' where r: "copy_loop h m chs ?ch1 = Inr channels'"
    and l: "length channels' = length ?ch1"
    and n: "\<forall>c < length ?ch1. channels' ! c =
           (if c \<in> set chs then take m (the (getChannelArray h c)) @ drop m (?ch1 ! c)
            else ?ch1 ! c)"
    by blast
  have "channels' ! c =
           (if c \<in> set (d # chs) then take m (the (getChannelArray h c)) @ drop m (channels ! c)
            else channels ! c)" if c: "c < length channels" for c
  proof (cases "c = d")
    case True
    with n c notin v show ?thesis by simp
  next
    case False
    with n c other show ?thesis by simp
  qed
  with r l show ?case unfolding step by simp
qed

subsection \<open>The pull of the wrapper\<close>

lemma getChannelArray_view:
  "channel_view h c = Some (off, len) \<Longrightarrow>
     getChannelArray h c = Some (map (\<lambda>i. heap h (off + i)) [0..<len])"
  by (simp add: getChannelArray_def)

lemma take_as_map_nth: "m \<le> length xs \<Longrightarrow> take m xs = map ((!) xs) [0..<m]"
  by (rule nth_equalityI) simp_all

lemma ts_pull_nothing:
  "channels = [] \<or> min (getSamplesAvailable (w_kernel w)) (length (channels ! 0)) = 0
     \<Longrightarrow> ts_pull w channels = Inr (w, channels)"
  by (cases "channels = []") (simp_all add: ts_pull_def Let_def del: min_less_iff_conj)

lemma ts_pull_some:
  fixes w :: "('e, 's) wrapper" and channels :: "'s list list"
  defines "m \<equiv> min (getSamplesAvailable (w_kernel w)) (length (channels ! 0))"
  defines "h1 \<equiv> (w_outputArray w)\<lparr>heap := snd (pull (w_kernel w) (heap (w_outputArray w)) m)\<rparr>"
  assumes ne: "channels \<noteq> []" and pos: "0 < m"
    and ok: "\<forall>c < length channels.
        (\<exists>v. getChannelArray h1 c = Some v \<and> m \<le> length v) \<and> m \<le> length (channels ! c)"
  shows "\<exists>channels'.
      ts_pull w channels =
        Inr (w\<lparr>w_kernel := fst (pull (w_kernel w) (heap (w_outputArray w)) m),
               w_outputArray := h1\<rparr>, channels')
      \<and> length channels' = length channels
      \<and> (\<forall>c < length channels.
            channels' ! c = take m (the (getChannelArray h1 c)) @ drop m (channels ! c))"
proof -
  have pre: "\<forall>c \<in> set [0..<length channels]. c < length channels
       \<and> (\<exists>v. getChannelArray h1 c = Some v \<and> m \<le> length v) \<and> m \<le> length (channels ! c)"
    using ok by simp
  from copy_loop_run [OF distinct_upt pre]
  obtain channels' where r: "copy_loop h1 m [0..<length channels] channels = Inr channels'"
    and l: "length channels' = length channels"
    and n: "\<forall>c < length channels. channels' ! c =
           take m (the (getChannelArray h1 c)) @ drop m (channels ! c)"
    by auto
  have "ts_pull w channels =
        Inr (w\<lparr>w_kernel := fst (pull (w_kernel w) (heap (w_outputArray w)) m),
               w_outputArray := h1\<rparr>, channels')"
    using ne pos r unfolding m_def h1_def
    by (simp add: ts_pull_def Let_def case_prod_beta del: min_less_iff_conj)
  with l n show ?thesis by blast
qed

lemma ts_pull_core:
  fixes w :: "('e, 's) wrapper" and channels :: "'s list list" and requested :: nat
  defines "m \<equiv> min (samplesAvailable w) requested"
  assumes al: "aligned (w_kernel w)"
    and ne: "channels \<noteq> []"
    and len: "\<forall>ch \<in> set channels. length ch = requested"
    and views: "\<forall>c < length channels.
        \<exists>off len. channel_view (w_outputArray w) c = Some (off, len) \<and> m \<le> len"
  shows "\<exists>w' channels'. ts_pull w channels = Inr (w', channels')
      \<and> length channels' = length channels
      \<and> (\<forall>c < length channels.
            channels' ! c = take m (the (getChannelArray (w_outputArray w') c)) @ drop m (channels ! c))
      \<and> channel_view (w_outputArray w') = channel_view (w_outputArray w)
      \<and> channel_count (w_kernel w') = channel_count (w_kernel w)
      \<and> length (output_buffer (w_kernel w')) = channel_count (w_kernel w)
      \<and> (\<forall>c < channel_count (w_kernel w).
            output_buffer (w_kernel w') ! c =
              (output_buffer (w_kernel w) ! c)
                \<lparr>rb_data := drop m (rb_data (output_buffer (w_kernel w) ! c))\<rparr>)
      \<and> (\<forall>c < channel_count (w_kernel w). \<forall>i < m.
            heap (w_outputArray w') (c * m + i) = rb_data (output_buffer (w_kernel w) ! c) ! i)
      \<and> (\<forall>a. heap (w_outputArray w') a =
            (if 0 < m \<and> a div m < channel_count (w_kernel w)
             then rb_data (output_buffer (w_kernel w) ! (a div m)) ! (a mod m)
             else heap (w_outputArray w) a))"
proof -
  let ?k = "w_kernel w"
  let ?A = "getReadSpace (output_buffer ?k ! 0)"
  have first: "length (channels ! 0) = requested"
    using ne len by (cases channels) simp_all
  have m: "m = min (getSamplesAvailable ?k) (length (channels ! 0))"
    by (simp add: m_def samplesAvailable_def first)
  have mA: "m \<le> ?A" and mR: "m \<le> requested"
    by (simp_all add: m_def samplesAvailable_def getSamplesAvailable_def)
  show ?thesis
  proof (cases "m = 0")
    case True
    have "ts_pull w channels = Inr (w, channels)"
      by (rule ts_pull_nothing) (simp add: m [symmetric] True)
    then show ?thesis
      using True alignedD(2) [OF al] by simp
  next
    case False
    then have pos: "0 < min (getSamplesAvailable ?k) (length (channels ! 0))"
      unfolding m by simp
    let ?p = "pull ?k (heap (w_outputArray w)) m"
    let ?h1 = "(w_outputArray w)\<lparr>heap := snd ?p\<rparr>"
    have ok: "(\<exists>v. getChannelArray ?h1 c = Some v \<and> m \<le> length v) \<and> m \<le> length (channels ! c)"
      if c: "c < length channels" for c
    proof -
      from views c obtain off len' where v: "channel_view (w_outputArray w) c = Some (off, len')"
        and l: "m \<le> len'" by blast
      have "getChannelArray ?h1 c = Some (map (\<lambda>i. heap ?h1 (off + i)) [0..<len'])"
        by (rule getChannelArray_view) (simp add: v)
      moreover have "length (channels ! c) = requested"
        using len c by simp
      ultimately show ?thesis using l mR by simp
    qed
    then have ok': "\<forall>c < length channels.
        (\<exists>v. getChannelArray
               ((w_outputArray w)\<lparr>heap := snd (pull ?k (heap (w_outputArray w))
                  (min (getSamplesAvailable ?k) (length (channels ! 0))))\<rparr>) c = Some v
             \<and> min (getSamplesAvailable ?k) (length (channels ! 0)) \<le> length v)
        \<and> min (getSamplesAvailable ?k) (length (channels ! 0)) \<le> length (channels ! c)"
      unfolding m by blast
    from ts_pull_some [OF ne pos ok']
    obtain channels' where r: "ts_pull w channels = Inr (w\<lparr>w_kernel := fst ?p, w_outputArray := ?h1\<rparr>, channels')"
      and l: "length channels' = length channels"
      and n: "\<forall>c < length channels.
            channels' ! c = take m (the (getChannelArray ?h1 c)) @ drop m (channels ! c)"
      unfolding m [symmetric] by blast
    have min_eq: "min ?A m = m" using mA by simp
    have bufs: "output_buffer (fst ?p) ! c =
              (output_buffer ?k ! c)\<lparr>rb_data := drop m (rb_data (output_buffer ?k ! c))\<rparr>"
      if "c < channel_count ?k" for c
      using pull_aligned(3) [OF al that, of "heap (w_outputArray w)" m] by (simp only: min_eq)
    have mem: "snd ?p (c * m + i) = rb_data (output_buffer ?k ! c) ! i"
      if "c < channel_count ?k" "i < m" for c i
    proof -
      from that False have "(c * m + i) div m = c" "(c * m + i) mod m = i" by simp_all
      with pull_aligned(4) [OF al, of "heap (w_outputArray w)" m "c * m + i"] that
      show ?thesis by (simp only: min_eq) simp
    qed
    have cc: "channel_count (fst ?p) = channel_count ?k"
      by (simp add: pull_def pull_loop_fields)
    have all: "snd ?p a =
            (if 0 < m \<and> a div m < channel_count ?k
             then rb_data (output_buffer ?k ! (a div m)) ! (a mod m)
             else heap (w_outputArray w) a)" for a
      using pull_aligned(4) [OF al, of "heap (w_outputArray w)" m a] False
      by (simp only: min_eq) simp
    have lb: "length (output_buffer (fst ?p)) = channel_count ?k"
      by (rule pull_aligned(2) [OF al])
    from r l n bufs mem cc all lb show ?thesis by simp
  qed
qed

subsection \<open>The test wrapper\<close>

lemmas wrapper_defs =
  demo_wrapper_def wrapper_new_def demo_module_def RENDER_QUANTUM_FRAMES_def
  RealtimeRubberBand_new_def loopback_engine_def setMaxProcessSize_def
  stretcher_setMaxProcessSize_def updateRatio_def RingBuffer_new_def

lemma demo_wrapper_views:
  "channel_view (w_outputArray (demo_wrapper xs)) 0 = Some (0, 128)"
  by (simp add: wrapper_defs Let_def)

lemma demo_wrapper_channels:
  "channel_count (w_kernel (demo_wrapper xs)) = 1"
  by (simp add: wrapper_defs push_def Let_def fetch_fields stretcher_process_def)

lemma demo_wrapper_kernel:
  "output_buffer (w_kernel (demo_wrapper [5])) = [\<lparr>rb_size = 17408, rb_data = [5]\<rparr>]"
  "output_buffer (w_kernel (demo_wrapper [7])) = [\<lparr>rb_size = 17408, rb_data = [7]\<rparr>]"
  "output_buffer (w_kernel (demo_wrapper [7, 7])) = [\<lparr>rb_size = 17408, rb_data = [7, 7]\<rparr>]"
  by (simp_all add: wrapper_defs run_defs fetch_fields upt_rec numeral_2_eq_2)

lemma demo_wrapper_aligned:
  "aligned (w_kernel (demo_wrapper [5]))"
  "aligned (w_kernel (demo_wrapper [7]))"
  "aligned (w_kernel (demo_wrapper [7, 7]))"
  by (simp_all add: aligned_def demo_wrapper_kernel demo_wrapper_channels)

lemma demo_wrapper_available:
  "samplesAvailable (demo_wrapper [5]) = 1"
  "samplesAvailable (demo_wrapper [7]) = 1"
  "samplesAvailable (demo_wrapper [7, 7]) = 2"
  by (simp_all add: samplesAvailable_def getSamplesAvailable_def getReadSpace_def
        demo_wrapper_kernel)

subsection \<open>The two-channel test wrapper\<close>

lemma demo_stereo_eval:
  "channel_view (w_outputArray demo_stereo) = (\<lambda>c. if c < 2 then Some (c * 128, 128) else None)"
  "heap (w_outputArray demo_stereo) = (\<lambda>a. 0)"
  "channel_count (w_kernel demo_stereo) = 2"
  "output_buffer (w_kernel demo_stereo)
     = [\<lparr>rb_size = 17408, rb_data = [1, 2]\<rparr>, \<lparr>rb_size = 17408, rb_data = [3, 4]\<rparr>]"
  by (simp_all add: demo_stereo_def wrapper_defs run_defs fetch_fields upt_rec numeral_2_eq_2 Let_def)

lemma demo_stereo_aligned: "aligned (w_kernel demo_stereo)"
  by (simp add: aligned_def demo_stereo_eval getReadSpace_def)

lemma demo_stereo_available: "samplesAvailable demo_stereo = 2"
  by (simp add: samplesAvailable_def getSamplesAvailable_def getReadSpace_def demo_stereo_eval)


lemma take_view: "m \<le> len \<Longrightarrow> take m (map f [0..<len]) = map f [0..<m]"
  by (simp add: take_map)

lemma list_two: "length xs = 2 \<Longrightarrow> xs = [xs ! 0, xs ! Suc 0]"
  by (cases xs; cases "tl xs") auto

subsection \<open>A pull into one channel\<close>

lemma ts_pull_one_channel:
  fixes w :: "('e, 's) wrapper" and ch :: "'s list"
  defines "m \<equiv> min (samplesAvailable w) (length ch)"
  assumes al: "aligned (w_kernel w)"
    and view: "channel_view (w_outputArray w) 0 = Some (0, len)" and fits: "m \<le> len"
  shows "map_sum id snd (ts_pull w [ch])
           = Inr [take m (rb_data (output_buffer (w_kernel w) ! 0)) @ drop m ch]"
proof -
  have ne: "[ch] \<noteq> []" and len: "\<forall>x \<in> set [ch]. length x = length ch" by simp_all
  have views: "\<forall>c < length [ch].
        \<exists>off len. channel_view (w_outputArray w) c = Some (off, len)
           \<and> min (samplesAvailable w) (length ch) \<le> len"
    using view fits by (simp add: m_def)
  from ts_pull_core [OF al ne len views]
  obtain w' channels' where r: "ts_pull w [ch] = Inr (w', channels')"
    and l: "length channels' = 1"
    and n: "channels' ! 0 = take m (the (getChannelArray (w_outputArray w') 0)) @ drop m ch"
    and v: "channel_view (w_outputArray w') = channel_view (w_outputArray w)"
    and h: "\<And>i. i < m \<Longrightarrow>
            heap (w_outputArray w') i = rb_data (output_buffer (w_kernel w) ! 0) ! i"
    using alignedD(1) [OF al] unfolding m_def by fastforce
  have g: "getChannelArray (w_outputArray w') 0
            = Some (map (\<lambda>i. heap (w_outputArray w') (0 + i)) [0..<len])"
    by (rule getChannelArray_view) (simp add: v view)
  have fill: "m \<le> length (rb_data (output_buffer (w_kernel w) ! 0))"
    by (simp add: m_def samplesAvailable_def getSamplesAvailable_def getReadSpace_def)
  have "take m (the (getChannelArray (w_outputArray w') 0))
      = map (heap (w_outputArray w')) [0..<m]"
    using fits by (simp add: g take_map)
  also have "\<dots> = map ((!) (rb_data (output_buffer (w_kernel w) ! 0))) [0..<m]"
    using h by simp
  also have "\<dots> = take m (rb_data (output_buffer (w_kernel w) ! 0))"
    by (rule take_as_map_nth [OF fill, symmetric])
  finally have "channels' ! 0 = take m (rb_data (output_buffer (w_kernel w) ! 0)) @ drop m ch"
    using n by simp
  with l have "channels' = [take m (rb_data (output_buffer (w_kernel w) ! 0)) @ drop m ch]"
    by (cases channels') simp_all
  with r show ?thesis by simp
qed

subsection \<open>What \<^verbatim>\<open>setTempo\<close> leaves in the engine\<close>

lemma double_ne_False: "\<not> double_ne a b \<Longrightarrow> a = b"
  by (cases a; cases b) simp_all

lemma setTempo_sets:
  assumes pos: "\<not> double_le_zero v"
    and law: "remembers_ratios E"
    and r: "setTempo E s v = Inr k"
  shows "st_getTimeRatio E (stretcher k) = v"
proof (cases "double_ne (st_getTimeRatio E (stretcher s)) v")
  case True
  with pos r have "k = updateRatio E (stretcher_setTimeRatio E (drain_and_reset E s) v)"
    by (simp add: setTempo_def)
  then show ?thesis
    using law by (simp add: updateRatio_def stretcher_setTimeRatio_def remembers_ratios_def)
next
  case False
  with pos r have "k = s" by (simp add: setTempo_def)
  with double_ne_False [OF False] show ?thesis by simp
qed

subsection \<open>The nearly full test session\<close>

lemma upt_two: "[0..<2] = [0, 1]"
  by (simp add: upt_rec numeral_2_eq_2)

lemma upt_three: "[0..<3] = [0, 1, 2]"
  by (simp add: upt_rec numeral_3_eq_3)

lemma map_zero_upt: "map (\<lambda>i. 0 :: nat) [0..<n] = replicate n 0"
  by (simp add: map_replicate_const)

lemma loopback_ops:
  "st_available (loopback_engine d) e = int (lb_ready e)"
  "st_retrieve (loopback_engine d) e sc n =
     (min n (lb_ready e),
      (\<lambda>c i. if c < length (lb_queue e) \<and> i < min n (lb_ready e) then lb_queue e ! c ! i
              else sc c i),
      e\<lparr>lb_queue := map (drop (min n (lb_ready e))) (lb_queue e)\<rparr>)"
  "st_process (loopback_engine d) e rows n final =
     e\<lparr>lb_queue := map (\<lambda>(q, row). q @ row) (zip (lb_queue e) rows)\<rparr>"
  by (simp_all add: loopback_engine_def Let_def)

lemma map_if_upt: "map (\<lambda>i. if i < n then f i else g i) [0..<n] = map f [0..<n]"
  by simp

lemma map_nth_replicate: "map ((!) (replicate n x)) [0..<n] = replicate n x"
  using map_nth [of "replicate n x"] by simp

lemma demo_filled_eval:
  "output_buffer demo_filled = replicate 2 \<lparr>rb_size = 17408, rb_data = replicate 17406 0\<rparr>"
  "lb_queue (stretcher demo_filled) = [[], []]"
  "start_delay_samples demo_filled = 0"
  "channel_count demo_filled = 2"
  "cerr demo_filled = []"
  "calls demo_filled = [Process 17406, Retrieve 17406]"
proof -
  let ?L = "loopback_engine 0"
  let ?s1 = "stretcher_process ?L (demo_new 0)
      (map (\<lambda>channel. map (\<lambda>i. 0) [0..<17406]) [0..<channel_count (demo_new 0)]) 17406 False"
  have f: "demo_filled = fetchProcessed ?L ?s1"
    by (simp add: demo_filled_def push_def Let_def)
  have s1: "lb_queue (stretcher ?s1) = [replicate 17406 0, replicate 17406 0]"
    "start_delay_samples ?s1 = 0" "channel_count ?s1 = 2" "cerr ?s1 = []"
    "output_buffer ?s1 = replicate 2 \<lparr>rb_size = 17408, rb_data = []\<rparr>"
    "calls ?s1 = [Process 17406]"
    by (simp_all add: demo_defs stretcher_process_def upt_two map_zero_upt numeral_2_eq_2)
  have av: "st_available ?L (stretcher ?s1) = 17406"
    by (simp add: loopback_ops lb_ready_def s1)
  have pos: "0 < st_available ?L (stretcher ?s1)" by (simp add: av)
  note eq = fetch_nodelay [OF pos s1(2)]
  have wf: "length (output_buffer ?s1) = channel_count ?s1" by (simp add: s1)
  have r: "st_retrieve ?L (stretcher ?s1) (scratch ?s1) 17406 =
      (17406, (\<lambda>c i. if c < Suc (Suc 0) \<and> i < 17406 then lb_queue (stretcher ?s1) ! c ! i
                     else scratch ?s1 c i),
       (stretcher ?s1)\<lparr>lb_queue := [[], []]\<rparr>)"
    by (simp add: loopback_ops lb_ready_def s1)
  show "output_buffer demo_filled = replicate 2 \<lparr>rb_size = 17408, rb_data = replicate 17406 0\<rparr>"
    unfolding f eq av
    by (simp add: fetch_write_buffers [OF wf] s1 r rb_write_def getWriteSpace_def upt_two
          map_if_upt map_nth_replicate numeral_2_eq_2)
  show "lb_queue (stretcher demo_filled) = [[], []]"
    unfolding f eq av by (simp add: fetch_write_fields r)
  show "start_delay_samples demo_filled = 0" "channel_count demo_filled = 2"
    "calls demo_filled = [Process 17406, Retrieve 17406]"
    unfolding f eq av by (simp_all add: fetch_write_fields s1)
  show "cerr demo_filled = []"
    unfolding f eq av by (simp add: fetch_write_fields s1 getWriteSpace_def numeral_2_eq_2)
qed

lemma replicate_two: "replicate 2 x = [x, x]"
  by (simp add: numeral_2_eq_2)

section \<open>Claims\<close>

subsection \<open>C1: push and the configured block size\<close>

text \<open>
  C1, as amended. \<^verbatim>\<open>push\<close> does not compare \<open>sample_size\<close> with the configured fixed
  block size. On every session with one ring buffer per channel, whatever the size and
  whatever size is configured, the call succeeds and the session it leaves is this one:
  the engine's \<^verbatim>\<open>process\<close> has been handed, for every channel, the \<open>sample_size\<close> samples
  that start at offset \<open>channel * sample_size\<close> of the input, with that size and not as
  the final block; and one fetch has been made on the engine as \<^verbatim>\<open>process\<close> left it, with
  the outcome \<open>fetch_outcome\<close> writes out on the engine's \<^verbatim>\<open>available\<close> and \<^verbatim>\<open>retrieve\<close>
  and the ring buffers' \<^verbatim>\<open>write\<close> (what the fetch may write to \<^verbatim>\<open>std::cerr\<close> apart). The
  configured size stays as it was.
\<close>

theorem push_forwards_every_block_size:
  assumes "length (output_buffer s) = channel_count s"
  shows "\<exists>s'. push E s input sample_size = Inr s'
      \<and> s'\<lparr>cerr := cerr s\<rparr> = fetch_outcome E
           (s\<lparr>stretcher :=
                st_process E (stretcher s)
                  (map (\<lambda>channel. map (\<lambda>i. input (channel * sample_size + i)) [0..<sample_size])
                     [0..<channel_count s])
                  sample_size False,
              calls := calls s @ [Process sample_size]\<rparr>)
      \<and> max_process_size s' = max_process_size s"
proof -
  let ?s1 = "stretcher_process E s
      (map (\<lambda>channel. map (\<lambda>i. input (channel * sample_size + i)) [0..<sample_size])
         [0..<channel_count s]) sample_size False"
  have wf1: "length (output_buffer ?s1) = channel_count ?s1"
    using assms by (simp add: stretcher_process_def)
  have "push E s input sample_size = Inr (fetchProcessed E ?s1)"
    by (simp add: push_def Let_def)
  moreover have "max_process_size (fetchProcessed E ?s1) = max_process_size s"
    by (simp add: fetch_fields stretcher_process_def)
  moreover have "(fetchProcessed E ?s1)\<lparr>cerr := cerr s\<rparr> = fetch_outcome E ?s1"
    using fetch_is_outcome [OF wf1, of E] by (simp add: stretcher_process_def)
  ultimately show ?thesis
    by (simp add: stretcher_process_def)
qed

text \<open>
  C1 as stated fails: on a session with fixed block size 4, a push of 2 samples per
  channel does not fail; the engine is called and the samples it returns reach the ring
  buffers.
\<close>

theorem push_other_block_size_counterexample:
  "max_process_size demo_fixed = 4 \<and>
   (case push (loopback_engine 0) demo_fixed (\<lambda>a. a) 2 of
      Inl e \<Rightarrow> False
    | Inr s' \<Rightarrow> calls s' = calls demo_fixed @ [Process 2, Retrieve 2]
        \<and> map rb_data (output_buffer demo_fixed) = [[], []]
        \<and> map rb_data (output_buffer s') = [[0, 1], [2, 3]])"
  by (simp add: demo_defs run_defs upt_rec numeral_2_eq_2)

text \<open>
  C1 as amended, a run on the test engine: the session with fixed block size 4 is pushed
  3 samples per channel (from a memory holding 10, 11, 12, 13, 14, 15). The engine receives
  the rows 10, 11, 12 and 13, 14, 15 with the size 3, the fetch asks for the 3 samples
  available, and the ring buffers hold the rows afterwards; the configured size is still 4.
\<close>

theorem push_forwards_every_block_size_witness:
  "length (output_buffer demo_fixed) = channel_count demo_fixed
   \<and> max_process_size demo_fixed = 4
   \<and> isl (push (loopback_engine 0) demo_fixed (\<lambda>a. a + 10) 3) = False
   \<and> calls (projr (push (loopback_engine 0) demo_fixed (\<lambda>a. a + 10) 3))
        = [SetMaxProcessSize 4, Process 3, Retrieve 3]
   \<and> map rb_data (output_buffer (projr (push (loopback_engine 0) demo_fixed (\<lambda>a. a + 10) 3)))
        = [[10, 11, 12], [13, 14, 15]]
   \<and> max_process_size (projr (push (loopback_engine 0) demo_fixed (\<lambda>a. a + 10) 3)) = 4"
proof -
  let ?L = "loopback_engine 0"
  have wf: "length (output_buffer demo_fixed) = channel_count demo_fixed"
    and m: "max_process_size demo_fixed = 4"
    by (simp_all add: demo_defs)
  define s1 where "s1 = demo_fixed\<lparr>stretcher :=
                st_process ?L (stretcher demo_fixed)
                  (map (\<lambda>channel. map (\<lambda>i. channel * 3 + i + 10) [0..<3])
                     [0..<channel_count demo_fixed])
                  3 False,
              calls := calls demo_fixed @ [Process 3]\<rparr>"
  from push_forwards_every_block_size [OF wf, of ?L "\<lambda>a. a + 10" 3]
  obtain s' where r: "push ?L demo_fixed (\<lambda>a. a + 10) 3 = Inr s'"
    and o: "s'\<lparr>cerr := cerr demo_fixed\<rparr> = fetch_outcome ?L s1"
    and k: "max_process_size s' = max_process_size demo_fixed"
    unfolding s1_def by blast
  have oc: "calls s' = calls (fetch_outcome ?L s1)"
    and ob: "output_buffer s' = output_buffer (fetch_outcome ?L s1)"
    using arg_cong [OF o, of calls] arg_cong [OF o, of output_buffer] by simp_all
  have s1: "lb_queue (stretcher s1) = [[10, 11, 12], [13, 14, 15]]"
    "start_delay_samples s1 = 0" "channel_count s1 = 2"
    "output_buffer s1 = [\<lparr>rb_size = 17408, rb_data = []\<rparr>, \<lparr>rb_size = 17408, rb_data = []\<rparr>]"
    "calls s1 = [SetMaxProcessSize 4, Process 3]"
    by (simp_all add: s1_def demo_defs loopback_ops upt_two upt_three replicate_two)
  have a: "nat (st_available ?L (stretcher s1)) = 3"
    by (simp add: loopback_ops lb_ready_def s1)
  have rt: "st_retrieve ?L (stretcher s1) (scratch s1) 3 =
      (3, (\<lambda>c i. if c < Suc (Suc 0) \<and> i < Suc (Suc (Suc 0)) then lb_queue (stretcher s1) ! c ! i else scratch s1 c i),
       (stretcher s1)\<lparr>lb_queue := [[], []]\<rparr>)"
    by (simp add: loopback_ops lb_ready_def s1)
  have "calls s' = [SetMaxProcessSize 4, Process 3, Retrieve 3]"
    unfolding oc by (simp add: fetch_outcome_def a s1 rt)
  moreover have "map rb_data (output_buffer s') = [[10, 11, 12], [13, 14, 15]]"
    unfolding ob
    by (simp add: fetch_outcome_def a s1 rt upt_two upt_three rb_write_def getWriteSpace_def)
  ultimately show ?thesis using r k wf m by simp
qed

subsection \<open>C2: when a fetch reports an overrun\<close>

text \<open>
  C2 fails on the code at the boundary. After the constructor and one push of 17406
  samples per channel, every ring buffer has exactly two free places and nothing has been
  written to \<^verbatim>\<open>std::cerr\<close>. A push of two more samples per channel (1, 2 and 3, 4) makes
  the engine offer exactly two samples per channel to the fetch: the free space is not
  smaller than the available count and both samples of every channel are stored, yet the
  fetch writes \<^verbatim>\<open>BUFFER OVERRUN\<close>. (That the fetch goes on and writes what fits holds; in
  general the report is made exactly when the free space is at most the available count,
  see \<open>fetch_cerr\<close>.)
\<close>

theorem fetch_overrun_when_all_fits:
  "getWriteSpace (output_buffer demo_filled ! 0) = 2
   \<and> getWriteSpace (output_buffer demo_filled ! 1) = 2
   \<and> start_delay_samples demo_filled = 0
   \<and> cerr demo_filled = []
   \<and> (case push (loopback_engine 0) demo_filled (\<lambda>a. a + 1) 2 of
         Inl e \<Rightarrow> False
       | Inr s' \<Rightarrow>
           calls s' = calls demo_filled @ [Process 2, Retrieve 2]
           \<and> cerr s' = [''BUFFER OVERRUN'']
           \<and> map rb_data (output_buffer s')
                = [replicate 17406 0 @ [1, 2], replicate 17406 0 @ [3, 4]])"
proof -
  let ?L = "loopback_engine 0"
  define s1 where "s1 = stretcher_process ?L demo_filled
      (map (\<lambda>channel. map (\<lambda>i. Suc (channel * 2 + i)) [0..<2]) [0..<channel_count demo_filled])
      2 False"
  have p: "push ?L demo_filled (\<lambda>a. a + 1) 2 = Inr (fetchProcessed ?L s1)"
    by (simp add: push_def Let_def s1_def)
  have s1: "lb_queue (stretcher s1) = [[1, 2], [3, 4]]"
    "start_delay_samples s1 = 0" "channel_count s1 = 2" "cerr s1 = []"
    "output_buffer s1 = replicate 2 \<lparr>rb_size = 17408, rb_data = replicate 17406 0\<rparr>"
    "calls s1 = calls demo_filled @ [Process 2]"
    by (simp_all add: s1_def stretcher_process_def loopback_ops demo_filled_eval upt_two)
  have av: "st_available ?L (stretcher s1) = 2"
    by (simp add: loopback_ops lb_ready_def s1)
  have pos: "0 < st_available ?L (stretcher s1)" by (simp add: av)
  note eq = fetch_nodelay [OF pos s1(2)]
  have wf: "length (output_buffer s1) = channel_count s1" by (simp add: s1)
  have r: "fst (st_retrieve ?L (stretcher s1) (scratch s1) 2) = 2"
    "fst (snd (st_retrieve ?L (stretcher s1) (scratch s1) 2)) 0 0 = 1"
    "fst (snd (st_retrieve ?L (stretcher s1) (scratch s1) 2)) 0 (Suc 0) = 2"
    "fst (snd (st_retrieve ?L (stretcher s1) (scratch s1) 2)) (Suc 0) 0 = 3"
    "fst (snd (st_retrieve ?L (stretcher s1) (scratch s1) 2)) (Suc 0) (Suc 0) = 4"
    by (simp_all add: loopback_ops lb_ready_def s1)
  have space: "getWriteSpace (output_buffer demo_filled ! 0) = 2"
    "getWriteSpace (output_buffer demo_filled ! 1) = 2"
    by (simp_all add: demo_filled_eval getWriteSpace_def numeral_2_eq_2)
  have c: "calls (fetchProcessed ?L s1) = calls demo_filled @ [Process 2, Retrieve 2]"
    unfolding eq av by (simp add: fetch_write_fields s1)
  have e: "cerr (fetchProcessed ?L s1) = [''BUFFER OVERRUN'']"
    unfolding eq av by (simp add: fetch_write_fields s1 getWriteSpace_def numeral_2_eq_2)
  have b: "map rb_data (output_buffer (fetchProcessed ?L s1))
      = [replicate 17406 0 @ [1, 2], replicate 17406 0 @ [3, 4]]"
    unfolding eq av
    by (simp add: fetch_write_buffers [OF wf] s1 r rb_write_def getWriteSpace_def upt_two
          replicate_two Let_def)
  show ?thesis
    unfolding p using space c e b by (simp add: demo_filled_eval)
qed

subsection \<open>C3: a pull copies what is available, up to the length asked for\<close>

text \<open>
  C3 fails on the code for every channel but the first when the fill is short. The
  kernel's \<^verbatim>\<open>pull\<close> writes channel \<open>c\<close> to the heap array from offset \<open>c * toPull\<close> on,
  and the wrapper reads channel \<open>c\<close> from its array of the heap array, which starts at
  offset \<open>c * 128\<close>. A two-channel wrapper whose ring buffers hold 1, 2 and 3, 4 (two
  samples available) is asked to fill the block 8, 8, 8 and 9, 9, 9. The call raises no
  error and each channel keeps its last entry; the first channel receives 1, 2; the second
  channel receives 0, 0, what the heap array held from offset 128 on, and not its samples
  3, 4, which the kernel wrote at the offsets 2 and 3. Both ring buffers are empty
  afterwards: the samples 3, 4 are lost.
\<close>

theorem pull_second_channel_stale:
  "samplesAvailable demo_stereo = 2
   \<and> map rb_data (output_buffer (w_kernel demo_stereo)) = [[1, 2], [3, 4]]
   \<and> channel_view (w_outputArray demo_stereo) 0 = Some (0, 128)
   \<and> channel_view (w_outputArray demo_stereo) 1 = Some (128, 128)
   \<and> (case ts_pull demo_stereo [[8, 8, 8], [9, 9, 9]] of
         Inl e \<Rightarrow> False
       | Inr (w', channels') \<Rightarrow>
           channels' = [[1, 2, 8], [0, 0, 9]]
           \<and> map rb_data (output_buffer (w_kernel w')) = [[], []]
           \<and> map (heap (w_outputArray w')) [0, 1, 2, 3] = [1, 2, 3, 4])"
proof -
  let ?w = "demo_stereo"
  let ?chs = "[[8, 8, 8], [9, 9, 9 :: nat]]"
  have ne: "?chs \<noteq> []" and len: "\<forall>ch \<in> set ?chs. length ch = 3"
    by simp_all
  have m: "min (samplesAvailable ?w) 3 = 2"
    by (simp add: demo_stereo_available)
  have views: "\<forall>c < length ?chs.
      \<exists>off len. channel_view (w_outputArray ?w) c = Some (off, len)
        \<and> min (samplesAvailable ?w) 3 \<le> len"
    by (simp add: demo_stereo_eval m)
  from ts_pull_core [OF demo_stereo_aligned ne len views]
  obtain w' channels' where r: "ts_pull ?w ?chs = Inr (w', channels')"
    and l: "length channels' = 2"
    and n: "\<And>c. c < 2 \<Longrightarrow>
          channels' ! c = take 2 (the (getChannelArray (w_outputArray w') c)) @ drop 2 (?chs ! c)"
    and v: "channel_view (w_outputArray w') = channel_view (w_outputArray ?w)"
    and b: "\<And>c. c < 2 \<Longrightarrow> output_buffer (w_kernel w') ! c =
              (output_buffer (w_kernel ?w) ! c)
                \<lparr>rb_data := drop 2 (rb_data (output_buffer (w_kernel ?w) ! c))\<rparr>"
    and cc: "channel_count (w_kernel w') = 2"
    and len': "length (output_buffer (w_kernel w')) = 2"
    and h: "\<And>a. heap (w_outputArray w') a =
            (if a div 2 < 2 then rb_data (output_buffer (w_kernel ?w) ! (a div 2)) ! (a mod 2)
             else 0)"
    unfolding m by (auto simp: demo_stereo_eval)
  have hs: "heap (w_outputArray w') 0 = 1" "heap (w_outputArray w') (Suc 0) = 2"
    "heap (w_outputArray w') 2 = 3" "heap (w_outputArray w') 3 = 4"
    "heap (w_outputArray w') 128 = 0" "heap (w_outputArray w') 129 = 0"
    by (simp_all add: h demo_stereo_eval)
  have g0: "getChannelArray (w_outputArray w') 0
      = Some (map (\<lambda>i. heap (w_outputArray w') (0 + i)) [0..<128])"
    by (rule getChannelArray_view) (simp add: v demo_stereo_eval)
  have g1: "getChannelArray (w_outputArray w') (Suc 0)
      = Some (map (\<lambda>i. heap (w_outputArray w') (128 + i)) [0..<128])"
    by (rule getChannelArray_view) (simp add: v demo_stereo_eval)
  have c0: "channels' ! 0 = [1, 2, 8]"
    using n [of 0] by (simp add: g0 take_view upt_two hs)
  have c1: "channels' ! Suc 0 = [0, 0, 9]"
    using n [of "Suc 0"] by (simp add: g1 take_view upt_two hs)
  have chs: "channels' = [[1, 2, 8], [0, 0, 9]]"
    using list_two [OF l] c0 c1 by simp
  have bufs: "map rb_data (output_buffer (w_kernel w')) = [[], []]"
    using list_two [OF len'] b [of 0] b [of "Suc 0"] by (simp add: demo_stereo_eval)
  show ?thesis
    unfolding r using chs bufs hs demo_stereo_available
    by (simp add: demo_stereo_eval)
qed

subsection \<open>C4: a setter given the current value does nothing\<close>

text \<open>
  C4. For each of \<^verbatim>\<open>setTempo\<close>, \<^verbatim>\<open>setPitch\<close> and \<^verbatim>\<open>setFormantScale\<close>, called with a
  positive value that equals (\<^verbatim>\<open>==\<close>) the engine's current one: the call returns the
  session unchanged, so there is no reset, no fetch and no change of state. And on an engine
  that remembers its ratios, the second of two consecutive calls with the same number is
  such a call: it changes nothing, and both calls together make at most one reset.
\<close>

theorem setter_same_value_noop:
  assumes "\<not> double_le_zero r"
  shows "(\<not> double_ne (st_getTimeRatio E (stretcher s)) r \<longrightarrow> setTempo E s r = Inr s)
       \<and> (\<not> double_ne (st_getPitchScale E (stretcher s)) r \<longrightarrow> setPitch E s r = Inr s)
       \<and> (\<not> double_ne (st_getFormantScale E (stretcher s)) r \<longrightarrow> setFormantScale E s r = Inr s)
       \<and> (remembers_ratios E \<and> r \<noteq> NaN \<longrightarrow>
            (\<forall>s1 s2. setTempo E s r = Inr s1 \<and> setTempo E s1 r = Inr s2
                \<longrightarrow> s2 = s1 \<and> reset_count s2 \<le> Suc (reset_count s))
          \<and> (\<forall>s1 s2. setPitch E s r = Inr s1 \<and> setPitch E s1 r = Inr s2
                \<longrightarrow> s2 = s1 \<and> reset_count s2 \<le> Suc (reset_count s))
          \<and> (\<forall>s1 s2. setFormantScale E s r = Inr s1 \<and> setFormantScale E s1 r = Inr s2
                \<longrightarrow> s2 = s1 \<and> reset_count s2 \<le> Suc (reset_count s)))"
proof (intro conjI impI allI)
  show "setTempo E s r = Inr s" if "\<not> double_ne (st_getTimeRatio E (stretcher s)) r"
    using that assms by (simp add: setTempo_def)
  show "setPitch E s r = Inr s" if "\<not> double_ne (st_getPitchScale E (stretcher s)) r"
    using that assms by (simp add: setPitch_def)
  show "setFormantScale E s r = Inr s" if "\<not> double_ne (st_getFormantScale E (stretcher s)) r"
    using that assms by (simp add: setFormantScale_def)
next
  fix s1 s2
  assume h: "remembers_ratios E \<and> r \<noteq> NaN"
    and c: "setTempo E s r = Inr s1 \<and> setTempo E s1 r = Inr s2"
  from setTempo_twice [OF assms, of E s s1 s2] h c
  show "s2 = s1" and "reset_count s2 \<le> Suc (reset_count s)"
    by (auto simp: remembers_ratios_def)
next
  fix s1 s2
  assume h: "remembers_ratios E \<and> r \<noteq> NaN"
    and c: "setPitch E s r = Inr s1 \<and> setPitch E s1 r = Inr s2"
  from setPitch_twice [OF assms, of E s s1 s2] h c
  show "s2 = s1" and "reset_count s2 \<le> Suc (reset_count s)"
    by (auto simp: remembers_ratios_def)
next
  fix s1 s2
  assume h: "remembers_ratios E \<and> r \<noteq> NaN"
    and c: "setFormantScale E s r = Inr s1 \<and> setFormantScale E s1 r = Inr s2"
  from setFormantScale_twice [OF assms, of E s s1 s2] h c
  show "s2 = s1" and "reset_count s2 \<le> Suc (reset_count s)"
    by (auto simp: remembers_ratios_def)
qed

text \<open>
  C4, a run: on a fresh session of the test engine (all ratios 1), setting 1 changes
  nothing; setting the tempo to 2 twice resets the engine once.
\<close>

theorem setter_same_value_noop_witness:
  "\<not> double_le_zero (Fin 1)
   \<and> \<not> double_ne (st_getTimeRatio (loopback_engine 0) (stretcher (demo_new 0))) (Fin 1)
   \<and> setTempo (loopback_engine 0) (demo_new 0) (Fin 1) = Inr (demo_new 0)
   \<and> setPitch (loopback_engine 0) (demo_new 0) (Fin 1) = Inr (demo_new 0)
   \<and> setFormantScale (loopback_engine 0) (demo_new 0) (Fin 1) = Inr (demo_new 0)
   \<and> remembers_ratios (loopback_engine 0)
   \<and> isl (setTempo (loopback_engine 0) (demo_new 0) (Fin 2)) = False
   \<and> setTempo (loopback_engine 0) (projr (setTempo (loopback_engine 0) (demo_new 0) (Fin 2))) (Fin 2)
        = Inr (projr (setTempo (loopback_engine 0) (demo_new 0) (Fin 2)))
   \<and> reset_count (demo_new 0) = 0
   \<and> reset_count (projr (setTempo (loopback_engine 0) (demo_new 0) (Fin 2))) = 1"
proof -
  let ?L = "loopback_engine 0"
  let ?s1 = "projr (setTempo ?L (demo_new 0) (Fin 2))"
  have one: "\<not> double_le_zero (Fin 1)" and two: "\<not> double_le_zero (Fin 2)" by simp_all
  have cur: "st_getTimeRatio ?L (stretcher (demo_new 0)) = Fin 1"
    "st_getPitchScale ?L (stretcher (demo_new 0)) = Fin 1"
    "st_getFormantScale ?L (stretcher (demo_new 0)) = Fin 1"
    by (simp_all add: demo_defs)
  have ok: "setTempo ?L (demo_new 0) (Fin 2) = Inr ?s1"
    by (simp add: setTempo_def cur)
  have "\<exists>s2. setTempo ?L ?s1 (Fin 2) = Inr s2"
    by (simp add: setTempo_def [of ?L ?s1])
  then obtain s2 where s2: "setTempo ?L ?s1 (Fin 2) = Inr s2" ..
  have r0: "reset_count (demo_new 0) = 0"
    by (simp add: reset_count_def demo_defs)
  have r1: "0 < reset_count ?s1"
    by (simp add: setTempo_def cur reset_count_def updateRatio_def stretcher_setTimeRatio_def
          drain_and_reset_fields)
  from setter_same_value_noop [OF one, of ?L "demo_new 0"]
  have same: "setTempo ?L (demo_new 0) (Fin 1) = Inr (demo_new 0)"
    "setPitch ?L (demo_new 0) (Fin 1) = Inr (demo_new 0)"
    "setFormantScale ?L (demo_new 0) (Fin 1) = Inr (demo_new 0)"
    by (simp_all add: cur)
  from setter_same_value_noop [OF two, of ?L "demo_new 0"] loopback_remembers [of 0] ok s2
  have "s2 = ?s1 \<and> reset_count s2 \<le> Suc (reset_count (demo_new 0))"
    by blast
  with s2 r0 r1 have "setTempo ?L ?s1 (Fin 2) = Inr ?s1" "reset_count ?s1 = 1"
    by auto
  moreover have "isl (setTempo ?L (demo_new 0) (Fin 2)) = False"
    by (simp add: setTempo_def [of ?L "demo_new 0"])
  ultimately show ?thesis
    using same cur r0 loopback_remembers [of 0] by simp
qed

subsection \<open>C5: a setter given a new value follows the protocol\<close>

text \<open>
  C5. For each of \<^verbatim>\<open>setTempo\<close>, \<^verbatim>\<open>setPitch\<close> and \<^verbatim>\<open>setFormantScale\<close>, called with a
  positive value that differs from the engine's current one, on a session with one ring
  buffer per channel: the call succeeds, and the session it leaves follows the protocol.
  First the fetch: the engine is asked for what it has available (the start delay first),
  and the ring buffers receive the surplus, as \<open>fetch_outcome\<close> writes it out on the
  engine's \<^verbatim>\<open>available\<close> and \<^verbatim>\<open>retrieve\<close> and the ring buffers' \<^verbatim>\<open>write\<close>. Then exactly
  one reset of the engine as the fetch left it, then the fixed block size again if one is
  configured, then the new ratio; start pad and start delay are read from the engine
  afterwards.
\<close>

theorem setter_new_value_protocol:
  assumes "\<not> double_le_zero r" and "length (output_buffer s) = channel_count s"
  shows "(double_ne (st_getTimeRatio E (stretcher s)) r \<longrightarrow>
            (\<exists>s'. setTempo E s r = Inr s'
               \<and> follows_protocol E s s' (SetTimeRatio r) (\<lambda>e. st_setTimeRatio E e r)))
       \<and> (double_ne (st_getPitchScale E (stretcher s)) r \<longrightarrow>
            (\<exists>s'. setPitch E s r = Inr s'
               \<and> follows_protocol E s s' (SetPitchScale r) (\<lambda>e. st_setPitchScale E e r)))
       \<and> (double_ne (st_getFormantScale E (stretcher s)) r \<longrightarrow>
            (\<exists>s'. setFormantScale E s r = Inr s'
               \<and> follows_protocol E s s' (SetFormantScale r) (\<lambda>e. st_setFormantScale E e r)))"
  using assms(1)
  by (simp add: setTempo_def setPitch_def setFormantScale_def
        protocol_setTimeRatio [OF assms(2)] protocol_setPitchScale [OF assms(2)]
        protocol_setFormantScale [OF assms(2)])

text \<open>
  C5, a run on the test engine with start delay 2: a session with fixed block size 4 whose
  engine holds four processed samples per channel (0, 1, 2, 3 and 4, 5, 6, 7) is set the
  tempo 2. The fetch asks for 2 samples (the start delay), then for 2 more, which reach
  the ring buffers; then come reset, setMaxProcessSize(4) and setTimeRatio(2); the engine
  is left empty, and the start delay is the engine's again.
\<close>

theorem setter_new_value_protocol_witness:
  "\<not> double_le_zero (Fin 2)
   \<and> length (output_buffer demo_pending_fixed) = channel_count demo_pending_fixed
   \<and> double_ne (st_getTimeRatio (loopback_engine 2) (stretcher demo_pending_fixed)) (Fin 2)
   \<and> isl (setTempo (loopback_engine 2) demo_pending_fixed (Fin 2)) = False
   \<and> follows_protocol (loopback_engine 2) demo_pending_fixed
        (projr (setTempo (loopback_engine 2) demo_pending_fixed (Fin 2))) (SetTimeRatio (Fin 2))
        (\<lambda>e. st_setTimeRatio (loopback_engine 2) e (Fin 2))
   \<and> calls demo_pending_fixed = [SetMaxProcessSize 4, Process 4]
   \<and> map rb_data (output_buffer demo_pending_fixed) = [[], []]
   \<and> calls (projr (setTempo (loopback_engine 2) demo_pending_fixed (Fin 2)))
        = [SetMaxProcessSize 4, Process 4, Retrieve 2, Retrieve 2,
           Reset, SetMaxProcessSize 4, SetTimeRatio (Fin 2)]
   \<and> map rb_data (output_buffer (projr (setTempo (loopback_engine 2) demo_pending_fixed (Fin 2))))
        = [[2, 3], [6, 7]]
   \<and> lb_queue (stretcher (projr (setTempo (loopback_engine 2) demo_pending_fixed (Fin 2))))
        = [[], []]
   \<and> start_delay_samples (projr (setTempo (loopback_engine 2) demo_pending_fixed (Fin 2))) = 2"
proof -
  let ?L = "loopback_engine 2"
  let ?s = "demo_pending_fixed"
  have two: "\<not> double_le_zero (Fin 2)" by simp
  have s: "st_getTimeRatio ?L (stretcher ?s) = Fin 1"
    "length (output_buffer ?s) = channel_count ?s"
    "calls ?s = [SetMaxProcessSize 4, Process 4]"
    "max_process_size ?s = 4"
    "output_buffer ?s = [\<lparr>rb_size = 17408, rb_data = []\<rparr>, \<lparr>rb_size = 17408, rb_data = []\<rparr>]"
    "lb_queue (stretcher ?s) = [[0, 1, 2, 3], [4, 5, 6, 7]]"
    "start_delay_samples ?s = 2"
    "channel_count ?s = 2"
    by (simp_all add: demo_pending_fixed_def demo_defs stretcher_process_def replicate_two)
  have ops: "\<And>e r. lb_queue (st_setTimeRatio ?L e r) = lb_queue e"
    "\<And>e n. lb_queue (st_setMaxProcessSize ?L e n) = lb_queue e"
    "\<And>e. lb_queue (st_reset ?L e) = map (\<lambda>q. []) (lb_queue e)"
    "\<And>e. st_getStartDelay ?L e = 2"
    by (simp_all add: loopback_engine_def)
  have ne: "double_ne (st_getTimeRatio ?L (stretcher ?s)) (Fin 2)"
    by (simp add: s)
  from setter_new_value_protocol [OF two s(2), of ?L] ne
  obtain s' where s': "setTempo ?L ?s (Fin 2) = Inr s'"
    and p: "follows_protocol ?L ?s s' (SetTimeRatio (Fin 2)) (\<lambda>e. st_setTimeRatio ?L e (Fin 2))"
    by blast
  have a: "nat (st_available ?L (stretcher ?s)) = 4"
    by (simp add: loopback_ops lb_ready_def s)
  have f: "calls (fetch_outcome ?L ?s) = [SetMaxProcessSize 4, Process 4, Retrieve 2, Retrieve 2]"
    "map rb_data (output_buffer (fetch_outcome ?L ?s)) = [[2, 3], [6, 7]]"
    "lb_queue (stretcher (fetch_outcome ?L ?s)) = [[], []]"
    by (simp_all add: fetch_outcome_def a s loopback_ops lb_ready_def upt_two
          rb_write_def getWriteSpace_def)
  from p have "calls s' = [SetMaxProcessSize 4, Process 4, Retrieve 2, Retrieve 2,
           Reset, SetMaxProcessSize 4, SetTimeRatio (Fin 2)]"
    and "map rb_data (output_buffer s') = [[2, 3], [6, 7]]"
    and "lb_queue (stretcher s') = [[], []]"
    and "start_delay_samples s' = 2"
    by (simp_all add: follows_protocol_def Let_def f s ops)
  with s' p ne s show ?thesis by simp
qed

subsection \<open>C6: start-delay compensation\<close>



subsection \<open>C7: what the pull of the wrapper returns\<close>

text \<open>
  C7, as amended. A pull on a wrapper whose kernel has sample-aligned channels holding
  \<open>A\<close> samples each, into a block of channels of \<open>requested\<close> entries each, every
  channel of the block having an array of at least \<open>min A requested\<close> floats in the
  output heap array (the arrays have 128): the call succeeds and returns the block it was
  given, with the same number of channels, every channel of its length. It returns no
  count. In every channel the first \<open>min A requested\<close> entries have been overwritten
  with what the channel's array of the heap array shows after the kernel's pull, and the
  entries from \<open>min A requested\<close> on are unchanged. Every ring buffer has lost its
  \<open>min A requested\<close> oldest samples, which the kernel has written to the heap array,
  channel \<open>c\<close> from offset \<open>c * min A requested\<close> on; so a channel whose array starts
  at that offset (the first channel when its array starts at the heap address; every
  channel when the arrays follow each other and are filled whole) has received the oldest
  samples of its ring buffer. \<^verbatim>\<open>samplesAvailable\<close> drops by \<open>min A requested\<close>.
\<close>

theorem pull_returns_the_block:
  fixes w :: "('e, 's) wrapper" and channels :: "'s list list" and requested :: nat
  defines "m \<equiv> min (samplesAvailable w) requested"
  assumes al: "aligned (w_kernel w)"
    and ne: "channels \<noteq> []"
    and len: "\<forall>ch \<in> set channels. length ch = requested"
    and views: "\<forall>c < length channels.
        \<exists>off len. channel_view (w_outputArray w) c = Some (off, len) \<and> m \<le> len"
  shows "\<exists>w' channels'. ts_pull w channels = Inr (w', channels')
      \<and> map length channels' = map length channels
      \<and> (\<forall>c < length channels.
            take m (channels' ! c) = take m (the (getChannelArray (w_outputArray w') c))
          \<and> drop m (channels' ! c) = drop m (channels ! c))
      \<and> (\<forall>c < channel_count (w_kernel w).
            rb_data (output_buffer (w_kernel w') ! c)
              = drop m (rb_data (output_buffer (w_kernel w) ! c))
          \<and> (\<forall>i < m. heap (w_outputArray w') (c * m + i)
                = rb_data (output_buffer (w_kernel w) ! c) ! i))
      \<and> (\<forall>c < length channels. c < channel_count (w_kernel w) \<longrightarrow>
            (\<exists>len. channel_view (w_outputArray w) c = Some (c * m, len)) \<longrightarrow>
            take m (channels' ! c) = take m (rb_data (output_buffer (w_kernel w) ! c)))
      \<and> samplesAvailable w' = samplesAvailable w - m"
proof -
  from ts_pull_core [OF al ne len views [unfolded m_def]]
  obtain w' channels' where r: "ts_pull w channels = Inr (w', channels')"
    and l: "length channels' = length channels"
    and n: "\<And>c. c < length channels \<Longrightarrow>
            channels' ! c = take m (the (getChannelArray (w_outputArray w') c)) @ drop m (channels ! c)"
    and v: "channel_view (w_outputArray w') = channel_view (w_outputArray w)"
    and b: "\<And>c. c < channel_count (w_kernel w) \<Longrightarrow>
            output_buffer (w_kernel w') ! c =
              (output_buffer (w_kernel w) ! c)
                \<lparr>rb_data := drop m (rb_data (output_buffer (w_kernel w) ! c))\<rparr>"
    and h: "\<And>c i. c < channel_count (w_kernel w) \<Longrightarrow> i < m \<Longrightarrow>
            heap (w_outputArray w') (c * m + i) = rb_data (output_buffer (w_kernel w) ! c) ! i"
    unfolding m_def by blast
  have mR: "m \<le> requested" by (simp add: m_def)
  have window: "\<exists>off len. getChannelArray (w_outputArray w') c
        = Some (map (\<lambda>i. heap (w_outputArray w') (off + i)) [0..<len])
      \<and> channel_view (w_outputArray w) c = Some (off, len) \<and> m \<le> len"
    if c: "c < length channels" for c
  proof -
    from views c obtain off len' where "channel_view (w_outputArray w) c = Some (off, len')"
      and "m \<le> len'" by blast
    then show ?thesis
      using getChannelArray_view [of "w_outputArray w'" c off len'] v by simp
  qed
  have g1: "length (channels' ! c) = length (channels ! c)
          \<and> take m (channels' ! c) = take m (the (getChannelArray (w_outputArray w') c))
          \<and> drop m (channels' ! c) = drop m (channels ! c)" if c: "c < length channels" for c
  proof -
    from window [OF c] obtain off len' where
      g: "getChannelArray (w_outputArray w') c
            = Some (map (\<lambda>i. heap (w_outputArray w') (off + i)) [0..<len'])"
      and ml: "m \<le> len'" by blast
    have lc: "length (channels ! c) = requested" using len c by simp
    show ?thesis
      using ml mR by (simp add: n [OF c] g lc min_absorb2)
  qed
  have g0: "map length channels' = map length channels"
    by (rule nth_equalityI) (simp_all add: l g1)
  have g2: "rb_data (output_buffer (w_kernel w') ! c)
              = drop m (rb_data (output_buffer (w_kernel w) ! c))
          \<and> (\<forall>i < m. heap (w_outputArray w') (c * m + i)
                = rb_data (output_buffer (w_kernel w) ! c) ! i)"
    if c: "c < channel_count (w_kernel w)" for c
    using b [OF c] h [OF c] by simp
  have g3: "take m (channels' ! c) = take m (rb_data (output_buffer (w_kernel w) ! c))"
    if c: "c < length channels" and ck: "c < channel_count (w_kernel w)"
      and at: "\<exists>len. channel_view (w_outputArray w) c = Some (c * m, len)" for c
  proof -
    from window [OF c] at obtain len' where
      g: "getChannelArray (w_outputArray w') c
            = Some (map (\<lambda>i. heap (w_outputArray w') (c * m + i)) [0..<len'])"
      and ml: "m \<le> len'" by auto
    have fill: "m \<le> length (rb_data (output_buffer (w_kernel w) ! c))"
      using aligned_nth(2) [OF al ck]
      by (simp add: m_def samplesAvailable_def getSamplesAvailable_def getReadSpace_def)
    have "take m (channels' ! c) = map (\<lambda>i. heap (w_outputArray w') (c * m + i)) [0..<m]"
      using g1 [OF c] ml by (simp add: g take_map)
    also have "\<dots> = map ((!) (rb_data (output_buffer (w_kernel w) ! c))) [0..<m]"
      using h [OF ck] by simp
    also have "\<dots> = take m (rb_data (output_buffer (w_kernel w) ! c))"
      by (rule take_as_map_nth [OF fill, symmetric])
    finally show ?thesis .
  qed
  have g4: "samplesAvailable w' = samplesAvailable w - m"
    using b [OF alignedD(1) [OF al]]
    by (simp add: samplesAvailable_def getSamplesAvailable_def getReadSpace_def)
  from r g0 g1 g2 g3 g4 show ?thesis by blast
qed

text \<open>
  C7 as stated fails: the value returned does not report a short fill. With one sample
  available the pull fills one entry of a two-entry channel, with two available it fills
  both; on the block 7, 7 and samples 7 both calls return the same value.
\<close>

theorem pull_return_value_counterexample:
  "samplesAvailable (demo_wrapper [7]) = 1
   \<and> samplesAvailable (demo_wrapper [7, 7]) = 2
   \<and> map_sum id snd (ts_pull (demo_wrapper [7]) [[7, 7]]) = Inr [[7, 7]]
   \<and> map_sum id snd (ts_pull (demo_wrapper [7, 7]) [[7, 7]]) = Inr [[7, 7]]"
  using ts_pull_one_channel [OF demo_wrapper_aligned(2) demo_wrapper_views, of "[7, 7]"]
    ts_pull_one_channel [OF demo_wrapper_aligned(3) demo_wrapper_views, of "[7, 7]"]
  by (simp add: demo_wrapper_available demo_wrapper_kernel)

text \<open>
  C7 as amended, a run: the two-channel wrapper with two samples available (1, 2 and 3, 4)
  and the block 8, 8, 8 and 9, 9, 9. The pull returns two channels of three entries; the
  first channel is 1, 2, 8; the second channel still ends with 9; no sample is available
  afterwards.
\<close>

theorem pull_returns_the_block_witness:
  "aligned (w_kernel demo_stereo)
   \<and> samplesAvailable demo_stereo = 2
   \<and> channel_view (w_outputArray demo_stereo) 0 = Some (0, 128)
   \<and> channel_view (w_outputArray demo_stereo) 1 = Some (128, 128)
   \<and> isl (ts_pull demo_stereo [[8, 8, 8], [9, 9, 9]]) = False
   \<and> map length (snd (projr (ts_pull demo_stereo [[8, 8, 8], [9, 9, 9]]))) = [3, 3]
   \<and> snd (projr (ts_pull demo_stereo [[8, 8, 8], [9, 9, 9]])) ! 0 = [1, 2, 8]
   \<and> drop 2 (snd (projr (ts_pull demo_stereo [[8, 8, 8], [9, 9, 9]])) ! 1) = [9]
   \<and> map rb_data (output_buffer (w_kernel demo_stereo)) = [[1, 2], [3, 4]]
   \<and> rb_data (output_buffer (w_kernel (fst (projr (ts_pull demo_stereo [[8, 8, 8], [9, 9, 9]])))) ! 0) = []
   \<and> rb_data (output_buffer (w_kernel (fst (projr (ts_pull demo_stereo [[8, 8, 8], [9, 9, 9]])))) ! 1) = []
   \<and> samplesAvailable (fst (projr (ts_pull demo_stereo [[8, 8, 8], [9, 9, 9]]))) = 0"
proof -
  let ?w = "demo_stereo"
  let ?chs = "[[8, 8, 8], [9, 9, 9 :: nat]]"
  have ne: "?chs \<noteq> []" and len: "\<forall>ch \<in> set ?chs. length ch = 3"
    by simp_all
  have m: "min (samplesAvailable ?w) 3 = 2"
    by (simp add: demo_stereo_available)
  have views: "\<forall>c < length ?chs.
      \<exists>off len. channel_view (w_outputArray ?w) c = Some (off, len)
        \<and> min (samplesAvailable ?w) 3 \<le> len"
    by (simp add: demo_stereo_eval m)
  from pull_returns_the_block [OF demo_stereo_aligned ne len views]
  obtain w' channels' where r: "ts_pull ?w ?chs = Inr (w', channels')"
    and l: "map length channels' = [3, 3]"
    and d: "\<And>c. c < 2 \<Longrightarrow> drop 2 (channels' ! c) = drop 2 (?chs ! c)"
    and b: "\<And>c. c < 2 \<Longrightarrow> rb_data (output_buffer (w_kernel w') ! c)
              = drop 2 (rb_data (output_buffer (w_kernel ?w) ! c))"
    and t: "\<And>c. c < 2 \<Longrightarrow> (\<exists>len. channel_view (w_outputArray ?w) c = Some (c * 2, len)) \<Longrightarrow>
              take 2 (channels' ! c) = take 2 (rb_data (output_buffer (w_kernel ?w) ! c))"
    and a: "samplesAvailable w' = 0"
    unfolding m by (auto simp: demo_stereo_eval demo_stereo_available)
  have t0: "take 2 (channels' ! 0) = [1, 2]"
    using t [of 0] by (simp add: demo_stereo_eval)
  have "channels' ! 0 = take 2 (channels' ! 0) @ drop 2 (channels' ! 0)" by simp
  then have c0: "channels' ! 0 = [1, 2, 8]"
    unfolding t0 using d [of 0] by simp
  have c1: "drop 2 (channels' ! 1) = [9]"
    using d [of 1] by simp
  have b0: "rb_data (output_buffer (w_kernel w') ! 0) = []"
    "rb_data (output_buffer (w_kernel w') ! 1) = []"
    using b [of 0] b [of 1] by (simp_all add: demo_stereo_eval)
  show ?thesis
    unfolding r using l c0 c1 b0 a demo_stereo_aligned demo_stereo_available
    by (simp add: demo_stereo_eval)
qed

subsection \<open>C8: the channels stay sample-aligned\<close>

text \<open>
  C8. In every session that can be reached (a successful construction followed by any calls
  of the setters, \<^verbatim>\<open>setMaxProcessSize\<close>, \<^verbatim>\<open>push\<close> and \<^verbatim>\<open>pull\<close>) there is one ring buffer
  per channel and all of them hold the same number of samples. A push (with its fetch)
  appends the same number of samples of the scratch memory to every channel's ring buffer,
  and a pull takes the same number of samples from every channel's ring buffer.
\<close>

theorem channels_stay_aligned:
  assumes "reachable E kB kR s"
  shows "length (output_buffer s) = channel_count s
     \<and> (\<forall>c < channel_count s. \<forall>c' < channel_count s.
           getReadSpace (output_buffer s ! c) = getReadSpace (output_buffer s ! c'))
     \<and> (\<forall>input n s'. push E s input n = Inr s' \<longrightarrow>
           (\<exists>k. \<forall>c < channel_count s.
              rb_data (output_buffer s' ! c) =
                rb_data (output_buffer s ! c) @ map (scratch s' c) [0..<k]))
     \<and> (\<forall>out n. \<exists>k. \<forall>c < channel_count s.
           rb_data (output_buffer (fst (pull s out n)) ! c) = drop k (rb_data (output_buffer s ! c)))"
proof (intro conjI allI impI)
  note al = reachable_aligned [OF assms]
  show "length (output_buffer s) = channel_count s" by (rule alignedD(2) [OF al])
  show "getReadSpace (output_buffer s ! c) = getReadSpace (output_buffer s ! c')"
    if "c < channel_count s" "c' < channel_count s" for c c'
    using aligned_nth(2) [OF al that(1)] aligned_nth(2) [OF al that(2)] by simp
  show "\<exists>k. \<forall>c < channel_count s.
          rb_data (output_buffer s' ! c) = rb_data (output_buffer s ! c) @ map (scratch s' c) [0..<k]"
    if p: "push E s input n = Inr s'" for input n s'
  proof -
    let ?rows = "map (\<lambda>channel. map (\<lambda>i. input (channel * n + i)) [0..<n]) [0..<channel_count s]"
    let ?s1 = "stretcher_process E s ?rows n False"
    have "aligned ?s1 = aligned s"
      by (rule aligned_cong) (simp_all add: stretcher_process_def)
    with al have al1: "aligned ?s1" by blast
    have same: "channel_count ?s1 = channel_count s" "output_buffer ?s1 = output_buffer s"
      by (simp_all add: stretcher_process_def)
    have s': "s' = fetchProcessed E ?s1"
      using p by (simp add: push_def Let_def)
    from fetch_appends [OF al1, of E] show ?thesis
      unfolding s' same .
  qed
  show "\<exists>k. \<forall>c < channel_count s.
          rb_data (output_buffer (fst (pull s out n)) ! c) = drop k (rb_data (output_buffer s ! c))"
    for out n
  proof -
    have "\<forall>c < channel_count s.
          rb_data (output_buffer (fst (pull s out n)) ! c)
            = drop (min (getReadSpace (output_buffer s ! 0)) n) (rb_data (output_buffer s ! c))"
      by (simp add: pull_aligned(3) [OF al])
    then show ?thesis ..
  qed
qed

text \<open>
  C8, a run: construction, \<^verbatim>\<open>setMaxProcessSize(4)\<close>, a push of two samples per channel and
  a pull of one leave one sample in each of the two ring buffers.
\<close>

theorem channels_stay_aligned_witness:
  "reachable (loopback_engine 0) 1024 8192 demo_streamed
   \<and> channel_count demo_streamed = 2
   \<and> getReadSpace (output_buffer demo_streamed ! 0) = getReadSpace (output_buffer demo_streamed ! 1)
   \<and> map rb_data (output_buffer demo_streamed) = [[1], [3]]"
proof -
  let ?L = "loopback_engine 0"
  have "reachable ?L 1024 8192 (demo_new 0)"
    by (rule reach_new [OF demo_new_ok])
  then have "reachable ?L 1024 8192 demo_fixed"
    unfolding demo_fixed_def by (rule reach_setMaxProcessSize)
  then have "reachable ?L 1024 8192 (projr (push ?L demo_fixed (\<lambda>a. a) 2))"
    by (rule reach_push [OF _ push_ok])
  then have r: "reachable ?L 1024 8192 demo_streamed"
    unfolding demo_streamed_def by (rule reach_pull)
  have cc: "channel_count demo_streamed = 2"
    by (simp add: demo_streamed_def pull_def pull_loop_fields push_def Let_def fetch_fields
          stretcher_process_def demo_defs)
  have data: "map rb_data (output_buffer demo_streamed) = [[1], [3]]"
    by (simp add: demo_streamed_def pull_def demo_defs run_defs upt_rec numeral_2_eq_2)
  from channels_stay_aligned [OF r] cc
  have "getReadSpace (output_buffer demo_streamed ! 0) = getReadSpace (output_buffer demo_streamed ! 1)"
    by simp
  with r cc data show ?thesis by simp
qed

subsection \<open>C9: non-positive arguments are rejected\<close>

text \<open>
  C9. The constructor fails exactly when the sample rate or the channel count is not
  positive (both are unsigned: not positive means zero) and yields a session otherwise;
  each ratio setter fails exactly when its argument is \<^verbatim>\<open><= 0\<close>. A failing call returns
  the exception and no session: the test is the first thing each of them does, so nothing
  has been changed when it throws.
\<close>

theorem construction_and_setters_reject_nonpositive:
  "isl (RealtimeRubberBand_new E kB kR mem sampleRate n high_quality)
     = (sampleRate \<le> 0 \<or> n \<le> 0)
   \<and> isl (setTempo E s r) = double_le_zero r
   \<and> isl (setPitch E s r) = double_le_zero r
   \<and> isl (setFormantScale E s r) = double_le_zero r"
  by (simp add: RealtimeRubberBand_new_def setTempo_def setPitch_def setFormantScale_def Let_def)

subsection \<open>C10: the wrapper's time ratio is the reciprocal of the kernel's\<close>

text \<open>
  C10. For every positive number \<open>x\<close>: setting \<^verbatim>\<open>timeRatio\<close> to \<open>x\<close> calls the kernel's
  \<^verbatim>\<open>setTempo\<close> with \<open>1 / x\<close>, which succeeds, and the wrapper afterwards holds the kernel
  that call returns; the getter \<^verbatim>\<open>timeRatio\<close> then returns \<open>x\<close>, while the engine (if it
  remembers its ratios) has the time ratio \<open>1 / x\<close>. The constructor does the same for an
  option \<^verbatim>\<open>tempo\<close> of \<open>x \<noteq> 1\<close>: the kernel it builds is the fresh one, with
  \<^verbatim>\<open>setMaxProcessSize(128)\<close> applied, after \<^verbatim>\<open>setTempo(1 / x)\<close>, and the getter of the new
  wrapper returns \<open>x\<close>.
\<close>

theorem timeRatio_passes_reciprocal:
  assumes pos: "0 < x"
  shows "(\<exists>k. setTempo (engine M) (w_kernel w) (Fin (1 / x)) = Inr k
            \<and> timeRatio_set M w (Fin x) = (w\<lparr>w_tempo := Fin x, w_kernel := k\<rparr>, None)
            \<and> (remembers_ratios (engine M)
                  \<longrightarrow> st_getTimeRatio (engine M) (stretcher k) = Fin (1 / x)))
       \<and> timeRatio_get (fst (timeRatio_set M w (Fin x))) = Fin x
       \<and> (\<forall>sampleRate channelCount opts k0.
            opt_tempo opts = Some (Fin x) \<and> x \<noteq> 1 \<and>
            RealtimeRubberBand_new (engine M) (kBlockSize M) (kReserve M) (fresh_scratch M)
              sampleRate channelCount
              (case opt_highQuality opts of None \<Rightarrow> False | Some b \<Rightarrow> b) = Inr k0 \<longrightarrow>
            (\<exists>k w'. setTempo (engine M) (setMaxProcessSize (engine M) k0 RENDER_QUANTUM_FRAMES)
                        (Fin (1 / x)) = Inr k
               \<and> wrapper_new M sampleRate channelCount (Some opts) = Inr w'
               \<and> w_kernel w' = k \<and> timeRatio_get w' = Fin x
               \<and> (remembers_ratios (engine M)
                     \<longrightarrow> st_getTimeRatio (engine M) (stretcher k) = Fin (1 / x))))"
proof (intro conjI allI impI)
  have nz: "x \<noteq> 0" and rpos: "\<not> double_le_zero (Fin (1 / x))"
    using pos by simp_all
  have succeeds: "\<exists>k. setTempo (engine M) s (Fin (1 / x)) = Inr k" for s :: "('a, 'b) kernel"
    using rpos by (simp add: setTempo_def)
  show "\<exists>k. setTempo (engine M) (w_kernel w) (Fin (1 / x)) = Inr k
            \<and> timeRatio_set M w (Fin x) = (w\<lparr>w_tempo := Fin x, w_kernel := k\<rparr>, None)
            \<and> (remembers_ratios (engine M)
                  \<longrightarrow> st_getTimeRatio (engine M) (stretcher k) = Fin (1 / x))"
  proof -
    from succeeds obtain k where k: "setTempo (engine M) (w_kernel w) (Fin (1 / x)) = Inr k"
      by blast
    have "timeRatio_set M w (Fin x) = (w\<lparr>w_tempo := Fin x, w_kernel := k\<rparr>, None)"
      using nz k by (simp add: timeRatio_set_def Let_def)
    moreover have "st_getTimeRatio (engine M) (stretcher k) = Fin (1 / x)"
      if "remembers_ratios (engine M)"
      by (rule setTempo_sets [OF rpos that k])
    ultimately show ?thesis using k by blast
  qed
  show "timeRatio_get (fst (timeRatio_set M w (Fin x))) = Fin x"
    by (simp add: timeRatio_get_def timeRatio_set_def Let_def split: sum.splits)
  fix sampleRate channelCount :: nat and opts :: RealtimeRubberBandOptions
    and k0 :: "('a, 'b) kernel"
  assume h: "opt_tempo opts = Some (Fin x) \<and> x \<noteq> 1 \<and>
            RealtimeRubberBand_new (engine M) (kBlockSize M) (kReserve M) (fresh_scratch M)
              sampleRate channelCount
              (case opt_highQuality opts of None \<Rightarrow> False | Some b \<Rightarrow> b) = Inr k0"
  let ?k1 = "setMaxProcessSize (engine M) k0 RENDER_QUANTUM_FRAMES"
  from succeeds obtain k where k: "setTempo (engine M) ?k1 (Fin (1 / x)) = Inr k"
    by blast
  have "\<exists>w'. wrapper_new M sampleRate channelCount (Some opts) = Inr w'
      \<and> w_kernel w' = k \<and> timeRatio_get w' = Fin x"
    using h nz k by (simp add: wrapper_new_def Let_def or_one_def timeRatio_get_def)
  moreover have "st_getTimeRatio (engine M) (stretcher k) = Fin (1 / x)"
    if "remembers_ratios (engine M)"
    by (rule setTempo_sets [OF rpos that k])
  ultimately show "\<exists>k w'. setTempo (engine M) ?k1 (Fin (1 / x)) = Inr k
               \<and> wrapper_new M sampleRate channelCount (Some opts) = Inr w'
               \<and> w_kernel w' = k \<and> timeRatio_get w' = Fin x
               \<and> (remembers_ratios (engine M)
                     \<longrightarrow> st_getTimeRatio (engine M) (stretcher k) = Fin (1 / x))"
    using k by blast
qed

text \<open>
  C10, a run: on a fresh wrapper (time ratio 1) setting \<^verbatim>\<open>timeRatio\<close> to 2 throws
  nothing; the getter returns 2, the engine's time ratio is 1/2.
\<close>

theorem timeRatio_passes_reciprocal_witness:
  "0 < (2 :: real)
   \<and> snd (timeRatio_set demo_module demo_wrapper_new (Fin 2)) = None
   \<and> timeRatio_get (fst (timeRatio_set demo_module demo_wrapper_new (Fin 2))) = Fin 2
   \<and> st_getTimeRatio (engine demo_module) (stretcher (w_kernel demo_wrapper_new)) = Fin 1
   \<and> st_getTimeRatio (engine demo_module)
        (stretcher (w_kernel (fst (timeRatio_set demo_module demo_wrapper_new (Fin 2))))) = Fin (1 / 2)
   \<and> calls (w_kernel (fst (timeRatio_set demo_module demo_wrapper_new (Fin 2))))
        = [SetMaxProcessSize 128, Reset, SetMaxProcessSize 128, SetTimeRatio (Fin (1 / 2))]"
proof -
  have pos: "0 < (2 :: real)" by simp
  have law: "remembers_ratios (engine demo_module)"
    by (simp add: demo_module_def loopback_remembers)
  have cur: "st_getTimeRatio (engine demo_module) (stretcher (w_kernel demo_wrapper_new)) = Fin 1"
    by (simp add: demo_wrapper_new_def wrapper_defs Let_def)
  have trace: "calls (w_kernel (fst (timeRatio_set demo_module demo_wrapper_new (Fin 2))))
        = [SetMaxProcessSize 128, Reset, SetMaxProcessSize 128, SetTimeRatio (Fin (1 / 2))]"
    by (simp add: timeRatio_set_def demo_wrapper_new_def wrapper_defs Let_def setter_defs
          fetchProcessed_def lb_ready_def)
  from timeRatio_passes_reciprocal [OF pos, of demo_module demo_wrapper_new] law
  obtain k where "timeRatio_set demo_module demo_wrapper_new (Fin 2)
        = (demo_wrapper_new\<lparr>w_tempo := Fin 2, w_kernel := k\<rparr>, None)"
    and "st_getTimeRatio (engine demo_module) (stretcher k) = Fin (1 / 2)"
    and "timeRatio_get (fst (timeRatio_set demo_module demo_wrapper_new (Fin 2))) = Fin 2"
    by auto
  with cur trace show ?thesis by simp
qed

end
